theory Spec2Isabelle
  imports Main
begin

section \<open>JavaScript values read by the client\<close>

text \<open>
  A parsed response body (\<^verbatim>\<open>data: any\<close> in \<^verbatim>\<open>client.ts\<close>) is a JSON value; a body
  read as text is the string \<open>JStr s\<close>. The JavaScript value \<^verbatim>\<open>undefined\<close> is \<open>None\<close>
  of \<open>json option\<close>. An object is the list of its own properties (keys distinct, as
  \<^verbatim>\<open>JSON.parse\<close> leaves them). Numbers are modelled as integers throughout.
\<close>

datatype json =
    JNull
  | JBool bool
  | JNum int
  | JStr string
  | JArr "json list"
  | JObj "(string \<times> json) list"

text \<open>Truthiness, as \<^verbatim>\<open>||\<close>, \<^verbatim>\<open>&&\<close> and \<^verbatim>\<open>!\<close> test it.\<close>

fun truthy :: "json option \<Rightarrow> bool" where
  "truthy None = False"
| "truthy (Some JNull) = False"
| "truthy (Some (JBool b)) = b"
| "truthy (Some (JNum n)) = (n \<noteq> 0)"
| "truthy (Some (JStr s)) = (s \<noteq> [])"
| "truthy (Some (JArr xs)) = True"
| "truthy (Some (JObj kvs)) = True"

text \<open>\<^verbatim>\<open>a || b\<close> where \<open>b\<close> is a defined value.\<close>

definition orElse :: "json option \<Rightarrow> json \<Rightarrow> json" where
  "orElse a b = (case a of None \<Rightarrow> b | Some v \<Rightarrow> if truthy (Some v) then v else b)"

section \<open>Error taxonomy (\<^verbatim>\<open>errors.ts\<close>)\<close>

text \<open>
  One constructor per class of \<^verbatim>\<open>errors.ts\<close>, with the constructor's parameters in
  order. The \<open>message\<close> is the value handed to the constructor (\<^verbatim>\<open>Error\<close> coerces it to
  a string; nothing below reads it back). \<open>JSError name message code status headers\<close>
  is a thrown object that is no instance of \<^verbatim>\<open>MVSEPError\<close> (a \<^verbatim>\<open>TypeError\<close> of the
  runtime, a Node.js system error with a \<^verbatim>\<open>code\<close>, an object of another library with
  a \<^verbatim>\<open>status\<close>), and \<open>JSUndefined\<close> is the thrown value \<^verbatim>\<open>undefined\<close>.
\<close>

type_synonym headers = "(string \<times> string) list"

datatype error =
    MVSEPError json "string option"
  | APIError int string json "json option" "headers option"
  | NetworkError json "error option"
  | AuthenticationError json
  | RateLimitError int string json "json option" "int option"
  | ValidationError json "json option"
  | TimeoutError json
  | FileUploadError json
  | SeparationError json "string option"
  | JSError string string "string option" "int option" "headers option"
  | JSUndefined

text \<open>\<^verbatim>\<open>instanceof\<close> along the class hierarchy: \<^verbatim>\<open>RateLimitError extends APIError extends MVSEPError\<close>.\<close>

fun instanceofMVSEPError :: "error \<Rightarrow> bool" where
  "instanceofMVSEPError (JSError n m c s h) = False"
| "instanceofMVSEPError JSUndefined = False"
| "instanceofMVSEPError e = True"

fun instanceofNetworkError :: "error \<Rightarrow> bool" where
  "instanceofNetworkError (NetworkError m c) = True"
| "instanceofNetworkError e = False"

fun instanceofTimeoutError :: "error \<Rightarrow> bool" where
  "instanceofTimeoutError (TimeoutError m) = True"
| "instanceofTimeoutError e = False"

fun instanceofRateLimitError :: "error \<Rightarrow> bool" where
  "instanceofRateLimitError (RateLimitError s t m r a) = True"
| "instanceofRateLimitError e = False"

fun instanceofValidationError :: "error \<Rightarrow> bool" where
  "instanceofValidationError (ValidationError m es) = True"
| "instanceofValidationError e = False"

fun instanceofAuthenticationError :: "error \<Rightarrow> bool" where
  "instanceofAuthenticationError (AuthenticationError m) = True"
| "instanceofAuthenticationError e = False"

text \<open>
  The properties the retry logic reads off a thrown value: \<^verbatim>\<open>error.status\<close>,
  \<^verbatim>\<open>error.code\<close>, \<^verbatim>\<open>error.headers\<close>, \<^verbatim>\<open>error.retryAfter\<close>, \<^verbatim>\<open>error.name\<close>,
  \<^verbatim>\<open>error.message\<close>. \<open>None\<close> is \<^verbatim>\<open>undefined\<close>. The \<open>code\<close> of each subclass is the
  constant its constructor passes to \<^verbatim>\<open>super\<close>; \<^verbatim>\<open>RateLimitError\<close> passes no headers on.
\<close>

fun error_status :: "error \<Rightarrow> int option" where
  "error_status (APIError s t m r h) = Some s"
| "error_status (RateLimitError s t m r a) = Some s"
| "error_status (JSError n m c s h) = s"
| "error_status e = None"

fun error_code :: "error \<Rightarrow> string option" where
  "error_code (MVSEPError m c) = c"
| "error_code (AuthenticationError m) = Some ''AUTH_ERROR''"
| "error_code (ValidationError m es) = Some ''VALIDATION_ERROR''"
| "error_code (TimeoutError m) = Some ''TIMEOUT_ERROR''"
| "error_code (FileUploadError m) = Some ''FILE_UPLOAD_ERROR''"
| "error_code (SeparationError m h) = Some ''SEPARATION_ERROR''"
| "error_code (JSError n m c s h) = c"
| "error_code e = None"

fun error_headers :: "error \<Rightarrow> headers option" where
  "error_headers (APIError s t m r h) = h"
| "error_headers (JSError n m c s h) = h"
| "error_headers e = None"

fun error_retryAfter :: "error \<Rightarrow> int option" where
  "error_retryAfter (RateLimitError s t m r a) = a"
| "error_retryAfter e = None"

fun error_name :: "error \<Rightarrow> string" where
  "error_name (MVSEPError m c) = ''MVSEPError''"
| "error_name (APIError s t m r h) = ''APIError''"
| "error_name (NetworkError m c) = ''NetworkError''"
| "error_name (AuthenticationError m) = ''AuthenticationError''"
| "error_name (RateLimitError s t m r a) = ''RateLimitError''"
| "error_name (ValidationError m es) = ''ValidationError''"
| "error_name (TimeoutError m) = ''TimeoutError''"
| "error_name (FileUploadError m) = ''FileUploadError''"
| "error_name (SeparationError m h) = ''SeparationError''"
| "error_name (JSError n m c s h) = n"
| "error_name JSUndefined = []"

text \<open>The \<^verbatim>\<open>TypeError\<close> the runtime throws when a property of \<^verbatim>\<open>undefined\<close> or \<^verbatim>\<open>null\<close> is read.\<close>

definition nullishTypeError :: "string \<Rightarrow> string \<Rightarrow> error" where
  "nullishTypeError what prop =
     JSError ''TypeError''
       (''Cannot read properties of '' @ what @ '' (reading '' @ [CHR 0x27] @ prop @ [CHR 0x27] @ '')'')
       None None None"

section \<open>Backoff and retry utility (\<^verbatim>\<open>retry.ts\<close>)\<close>

definition RETRYABLE_STATUS_CODES :: "int list" where
  "RETRYABLE_STATUS_CODES = [408, 429, 500, 502, 503, 504]"

definition RETRYABLE_ERROR_CODES :: "string list" where
  "RETRYABLE_ERROR_CODES = [''ECONNRESET'', ''ETIMEDOUT'', ''ENOTFOUND'', ''ECONNREFUSED'']"

text \<open>
  \<^verbatim>\<open>isRetryableError(error: any)\<close>. The \<^verbatim>\<open>instanceof\<close> tests accept any value; the first
  property read, \<^verbatim>\<open>error.status\<close>, throws when the value is \<^verbatim>\<open>undefined\<close>, so the result
  is a sum. \<^verbatim>\<open>error.status &&\<close> and \<^verbatim>\<open>error.code &&\<close> are the truthiness guards: a status
  of 0 and an empty code fall through.
\<close>

definition isRetryableError :: "error \<Rightarrow> error + bool" where
  "isRetryableError e =
     (if instanceofNetworkError e \<or> instanceofTimeoutError e then Inr True
      else if instanceofRateLimitError e then Inr True
      else if e = JSUndefined then Inl (nullishTypeError ''undefined'' ''status'')
      else if (case error_status e of None \<Rightarrow> False
               | Some s \<Rightarrow> s \<noteq> 0 \<and> s \<in> set RETRYABLE_STATUS_CODES) then Inr True
      else if (case error_code e of None \<Rightarrow> False
               | Some c \<Rightarrow> c \<noteq> [] \<and> c \<in> set RETRYABLE_ERROR_CODES) then Inr True
      else Inr False)"

text \<open>
  The numbers that \<^verbatim>\<open>calculateBackoff\<close> computes with are doubles. \<open>Finite n\<close> is a double
  with the integer value \<open>n\<close>; \<open>PosInf\<close>, \<open>NegInf\<close> and \<open>NaN\<close> are \<^verbatim>\<open>Infinity\<close>,
  \<^verbatim>\<open>-Infinity\<close> and \<^verbatim>\<open>NaN\<close>. \<^verbatim>\<open>Math.pow(2, n)\<close> is exact up to \<open>2^1023\<close> and
  \<^verbatim>\<open>Infinity\<close> from \<open>n = 1024\<close> on. A product is \<^verbatim>\<open>NaN\<close> when a factor is, or when
  zero meets an infinity; a finite product of magnitude \<open>2^1024\<close> or more overflows to
  the infinity of its sign (a double times a power of two is exact below that).
  \<^verbatim>\<open>Math.min\<close> is \<^verbatim>\<open>NaN\<close> when an argument is, and \<^verbatim>\<open><=\<close> is false on \<^verbatim>\<open>NaN\<close>.
\<close>

datatype jsnum = Finite int | PosInf | NegInf | NaN

definition pow2 :: "nat \<Rightarrow> jsnum" where
  "pow2 n = (if n < 1024 then Finite (2 ^ n) else PosInf)"

definition doubleOverflow :: int where
  "doubleOverflow = 2 ^ 1024"

fun js_times :: "jsnum \<Rightarrow> jsnum \<Rightarrow> jsnum" where
  "js_times NaN y = NaN"
| "js_times x NaN = NaN"
| "js_times (Finite a) (Finite b) =
     (if doubleOverflow \<le> a * b then PosInf
      else if a * b \<le> - doubleOverflow then NegInf
      else Finite (a * b))"
| "js_times (Finite a) PosInf = (if a = 0 then NaN else if 0 < a then PosInf else NegInf)"
| "js_times (Finite a) NegInf = (if a = 0 then NaN else if 0 < a then NegInf else PosInf)"
| "js_times PosInf (Finite b) = (if b = 0 then NaN else if 0 < b then PosInf else NegInf)"
| "js_times NegInf (Finite b) = (if b = 0 then NaN else if 0 < b then NegInf else PosInf)"
| "js_times PosInf PosInf = PosInf"
| "js_times PosInf NegInf = NegInf"
| "js_times NegInf PosInf = NegInf"
| "js_times NegInf NegInf = PosInf"

fun js_min :: "jsnum \<Rightarrow> jsnum \<Rightarrow> jsnum" where
  "js_min NaN y = NaN"
| "js_min x NaN = NaN"
| "js_min NegInf y = NegInf"
| "js_min x NegInf = NegInf"
| "js_min PosInf y = y"
| "js_min x PosInf = x"
| "js_min (Finite a) (Finite b) = Finite (min a b)"

fun js_le :: "jsnum \<Rightarrow> jsnum \<Rightarrow> bool" where
  "js_le NaN y = False"
| "js_le x NaN = False"
| "js_le NegInf y = True"
| "js_le x PosInf = True"
| "js_le PosInf y = False"
| "js_le x NegInf = False"
| "js_le (Finite a) (Finite b) = (a \<le> b)"

text \<open>
  \<^verbatim>\<open>calculateBackoff(attempt, baseDelay) = Math.min(baseDelay * Math.pow(2, attempt), 32000)\<close>,
  for an attempt index that is a natural number and a base delay with an integer value.
\<close>

definition calculateBackoff :: "nat \<Rightarrow> int \<Rightarrow> jsnum" where
  "calculateBackoff attempt baseDelay =
     js_min (js_times (Finite baseDelay) (pow2 attempt)) (Finite 32000)"

text \<open>
  \<^verbatim>\<open>parseInt(s, 10)\<close>: leading white space is skipped, one sign is read, then the
  longest run of decimal digits; no digit gives \<^verbatim>\<open>NaN\<close>, here \<open>None\<close>. Characters are
  bytes, so the white space is the ASCII white space and the no-break space.
\<close>

definition isStrWhiteSpaceChar :: "char \<Rightarrow> bool" where
  "isStrWhiteSpaceChar c =
     (c \<in> set [CHR 0x20, CHR 0x09, CHR 0x0A, CHR 0x0B, CHR 0x0C, CHR 0x0D, CHR 0xA0])"

definition digitValue :: "char \<Rightarrow> int option" where
  "digitValue c =
     map_of [(CHR ''0'', 0), (CHR ''1'', 1), (CHR ''2'', 2), (CHR ''3'', 3), (CHR ''4'', 4),
             (CHR ''5'', 5), (CHR ''6'', 6), (CHR ''7'', 7), (CHR ''8'', 8), (CHR ''9'', 9)] c"

fun leadingDigits :: "string \<Rightarrow> int list" where
  "leadingDigits [] = []"
| "leadingDigits (c # cs) =
     (case digitValue c of None \<Rightarrow> [] | Some d \<Rightarrow> d # leadingDigits cs)"

definition decimalValue :: "int list \<Rightarrow> int" where
  "decimalValue ds = foldl (\<lambda>acc d. acc * 10 + d) 0 ds"

definition parseInt :: "string \<Rightarrow> int option" where
  "parseInt s =
     (let t = dropWhile isStrWhiteSpaceChar s;
          neg = (t \<noteq> [] \<and> hd t = CHR ''-'');
          u = (if t \<noteq> [] \<and> (hd t = CHR ''-'' \<or> hd t = CHR ''+'') then tl t else t);
          ds = leadingDigits u
      in if ds = [] then None
         else Some (if neg then - decimalValue ds else decimalValue ds))"

text \<open>
  \<^verbatim>\<open>parseRetryAfter(retryAfter: string | null | undefined)\<close>. \<open>None\<close> is the absent
  header. \<^verbatim>\<open>new Date(retryAfter).getTime()\<close> is the host's date parser: it is the
  parameter \<open>dateParse\<close> (\<open>None\<close> for an invalid date), and \<open>now\<close> is \<^verbatim>\<open>Date.now()\<close>.
\<close>

definition parseRetryAfter :: "(string \<Rightarrow> int option) \<Rightarrow> int \<Rightarrow> string option \<Rightarrow> int" where
  "parseRetryAfter dateParse now retryAfter =
     (case retryAfter of
        None \<Rightarrow> 0
      | Some s \<Rightarrow>
          if s = [] then 0
          else (case parseInt s of
                  Some seconds \<Rightarrow> seconds * 1000
                | None \<Rightarrow>
                    (case dateParse s of
                       Some t \<Rightarrow> max 0 (t - now)
                     | None \<Rightarrow> 0)))"

text \<open>
  \<^verbatim>\<open>sleep(ms)\<close> resolves from \<^verbatim>\<open>setTimeout(resolve, ms)\<close>. Node.js sets a delay below 1 or
  above \<open>2^31 - 1\<close> to 1 ms, so a timer always lets at least one millisecond pass.
\<close>

definition timerDelay :: "int \<Rightarrow> int" where
  "timerDelay ms = (if ms < 1 \<or> 2147483647 < ms then 1 else ms)"

text \<open>The same for a delay that is a double: \<^verbatim>\<open>NaN\<close> and the infinities are set to 1 ms too.\<close>

definition timerDelayOf :: "jsnum \<Rightarrow> int" where
  "timerDelayOf delay = (case delay of Finite ms \<Rightarrow> timerDelay ms | _ \<Rightarrow> 1)"

record RetryConfig =
  maxRetries :: int
  retryDelay :: int
  timeout :: int

text \<open>
  The environment of one \<^verbatim>\<open>retryWithBackoff\<close> run. \<^verbatim>\<open>fn\<close> is an effectful thunk: its
  \<open>k\<close>-th invocation (from 0) takes \<open>fn_ms k\<close> milliseconds and settles to
  \<open>fn_result k t\<close>, where \<open>t\<close> is the clock when it settles (\<open>Inl\<close> is a rejection).
  The \<open>k\<close>-th timer fires \<open>timer_late k\<close> milliseconds late.
\<close>

record 'a retry_env =
  fn_result :: "nat \<Rightarrow> int \<Rightarrow> error + 'a"
  fn_ms :: "nat \<Rightarrow> nat"
  timer_late :: "nat \<Rightarrow> nat"
  date_parse :: "string \<Rightarrow> int option"

text \<open>What a run changes: the clock, the number of invocations of \<^verbatim>\<open>fn\<close>, the delays slept.\<close>

record retry_state =
  rs_now :: int
  rs_calls :: nat
  rs_sleeps :: "jsnum list"

definition sleep :: "'a retry_env \<Rightarrow> jsnum \<Rightarrow> retry_state \<Rightarrow> retry_state" where
  "sleep env ms s =
     s\<lparr> rs_now := rs_now s + timerDelayOf ms + int (timer_late env (length (rs_sleeps s))),
        rs_sleeps := rs_sleeps s @ [ms] \<rparr>"

text \<open>
  The delay before the next attempt (lines 102 to 110 of \<^verbatim>\<open>retry.ts\<close>):
  \<^verbatim>\<open>error.retryAfter\<close> of a \<^verbatim>\<open>RateLimitError\<close> when truthy, else the parsed
  \<^verbatim>\<open>error.headers?.['retry-after']\<close> when truthy, else the exponential backoff.
  Reading \<^verbatim>\<open>error.headers\<close> off \<^verbatim>\<open>undefined\<close> throws.
\<close>

definition headerOrBackoff ::
  "(string \<Rightarrow> int option) \<Rightarrow> int \<Rightarrow> RetryConfig \<Rightarrow> nat \<Rightarrow> error \<Rightarrow> error + jsnum" where
  "headerOrBackoff dateParse now config attempt e =
     (if e = JSUndefined then Inl (nullishTypeError ''undefined'' ''headers'')
      else (case (case error_headers e of None \<Rightarrow> None | Some h \<Rightarrow> map_of h ''retry-after'') of
              Some v \<Rightarrow>
                if v \<noteq> [] then Inr (Finite (parseRetryAfter dateParse now (Some v)))
                else Inr (calculateBackoff attempt (retryDelay config))
            | None \<Rightarrow> Inr (calculateBackoff attempt (retryDelay config))))"

definition retryDelayFor ::
  "(string \<Rightarrow> int option) \<Rightarrow> int \<Rightarrow> RetryConfig \<Rightarrow> nat \<Rightarrow> error \<Rightarrow> error + jsnum" where
  "retryDelayFor dateParse now config attempt e =
     (case (if instanceofRateLimitError e then error_retryAfter e else None) of
        Some retryAfter \<Rightarrow>
          if retryAfter \<noteq> 0 then Inr (Finite retryAfter)
          else headerOrBackoff dateParse now config attempt e
      | None \<Rightarrow> headerOrBackoff dateParse now config attempt e)"

text \<open>
  \<^verbatim>\<open>retryWithBackoff(fn, config, isRetryable)\<close>: the \<^verbatim>\<open>for\<close> loop from \<open>attempt\<close> on, with
  \<open>lastError\<close> as the loop left it. A success returns at once; a failure is rethrown
  when \<open>isRetryable\<close> says no or the attempt index equals \<open>maxRetries\<close>; otherwise the
  loop sleeps and goes on. Leaving the loop throws \<open>lastError\<close>, which is
  \<^verbatim>\<open>undefined\<close> when no attempt was made.
\<close>

function retryLoop ::
  "'a retry_env \<Rightarrow> RetryConfig \<Rightarrow> (error \<Rightarrow> error + bool) \<Rightarrow> nat \<Rightarrow> error option
     \<Rightarrow> retry_state \<Rightarrow> (error + 'a) \<times> retry_state" where
  "retryLoop env config isRetryable attempt lastError s =
     (if int attempt \<le> maxRetries config then
        (let k = rs_calls s;
             s1 = s\<lparr> rs_now := rs_now s + int (fn_ms env k), rs_calls := k + 1 \<rparr>
         in case fn_result env k (rs_now s1) of
              Inr v \<Rightarrow> (Inr v, s1)
            | Inl e \<Rightarrow>
                (case isRetryable e of
                   Inl thrown \<Rightarrow> (Inl thrown, s1)
                 | Inr retryable \<Rightarrow>
                     if \<not> retryable \<or> int attempt = maxRetries config then (Inl e, s1)
                     else (case retryDelayFor (date_parse env) (rs_now s1) config attempt e of
                             Inl thrown \<Rightarrow> (Inl thrown, s1)
                           | Inr delay \<Rightarrow>
                               retryLoop env config isRetryable (attempt + 1) (Some e)
                                 (sleep env delay s1))))
      else (Inl (case lastError of None \<Rightarrow> JSUndefined | Some e \<Rightarrow> e), s))"
  by pat_completeness auto
termination
  by (relation "measure (\<lambda>(env, config, isRetryable, attempt, lastError, s).
                  nat (maxRetries config + 1 - int attempt))") auto

definition retryWithBackoff ::
  "'a retry_env \<Rightarrow> RetryConfig \<Rightarrow> (error \<Rightarrow> error + bool) \<Rightarrow> retry_state
     \<Rightarrow> (error + 'a) \<times> retry_state" where
  "retryWithBackoff env config isRetryable s = retryLoop env config isRetryable 0 None s"

text \<open>Decimal rendering of a number inside a template string.\<close>

function showDecimal :: "int \<Rightarrow> string" where
  "showDecimal n =
     (if n < 10 then [''0123456789'' ! nat n]
      else showDecimal (n div 10) @ [''0123456789'' ! nat (n mod 10)])"
  by pat_completeness auto
termination
  by (relation "measure nat") auto

definition showInt :: "int \<Rightarrow> string" where
  "showInt i = (if i < 0 then CHR ''-'' # showDecimal (- i) else showDecimal i)"

text \<open>
  \<^verbatim>\<open>withTimeout(promise, timeoutMs, timeoutError)\<close>. The operation in flight is given by
  when it settles, in milliseconds after the call (\<open>None\<close>: never), and by what it
  settles to (\<open>Inl\<close> is a rejection). The host's timer table holds the identifiers of
  the pending timers; \<^verbatim>\<open>setTimeout\<close> enters a fresh one, the firing of a timer and
  \<^verbatim>\<open>clearTimeout\<close> take it out. The timer fires \<open>timerDelay timeoutMs\<close> milliseconds
  after the call, plus its lateness \<open>late\<close>. \<^verbatim>\<open>Promise.race\<close> settles with whichever of
  the two settles first; when both fall on the same millisecond the order is the host's,
  here the field \<open>op_first_on_tie\<close>. The \<^verbatim>\<open>finally\<close> block clears the timer on either
  outcome. The default \<open>timeoutError\<close> (\<open>None\<close>) is the \<open>TimeoutError\<close> of the source.
\<close>

record 'a operation =
  op_settles :: "nat option"
  op_result :: "error + 'a"
  op_first_on_tie :: bool

record timers =
  tm_now :: int
  tm_pending :: "nat list"
  tm_next :: nat

definition setTimeout :: "timers \<Rightarrow> nat \<times> timers" where
  "setTimeout s =
     (tm_next s, s\<lparr> tm_pending := tm_pending s @ [tm_next s], tm_next := tm_next s + 1 \<rparr>)"

definition clearTimeout :: "nat \<Rightarrow> timers \<Rightarrow> timers" where
  "clearTimeout timeoutId s = s\<lparr> tm_pending := filter (\<lambda>i. i \<noteq> timeoutId) (tm_pending s) \<rparr>"

definition timerFires :: "nat \<Rightarrow> int \<Rightarrow> timers \<Rightarrow> timers" where
  "timerFires timeoutId after s =
     s\<lparr> tm_now := tm_now s + after,
        tm_pending := filter (\<lambda>i. i \<noteq> timeoutId) (tm_pending s) \<rparr>"

definition defaultTimeoutError :: "int \<Rightarrow> error option \<Rightarrow> error" where
  "defaultTimeoutError timeoutMs timeoutError =
     (case timeoutError of
        None \<Rightarrow> TimeoutError (JStr (''Request timed out after '' @ showInt timeoutMs @ ''ms''))
      | Some e \<Rightarrow> e)"

definition withTimeout ::
  "'a operation \<Rightarrow> int \<Rightarrow> error option \<Rightarrow> nat \<Rightarrow> timers \<Rightarrow> (error + 'a) \<times> timers" where
  "withTimeout promise timeoutMs timeoutError late s =
     (case setTimeout s of
        (timeoutId, s1) \<Rightarrow>
          (case (case op_settles promise of
                   None \<Rightarrow>
                     (Inl (defaultTimeoutError timeoutMs timeoutError),
                      timerFires timeoutId (timerDelay timeoutMs + int late) s1)
                 | Some t \<Rightarrow>
                     if int t < timerDelay timeoutMs + int late
                        \<or> (int t = timerDelay timeoutMs + int late \<and> op_first_on_tie promise)
                     then (op_result promise, s1\<lparr> tm_now := tm_now s1 + int t \<rparr>)
                     else (Inl (defaultTimeoutError timeoutMs timeoutError),
                           timerFires timeoutId (timerDelay timeoutMs + int late) s1)) of
             (outcome, s2) \<Rightarrow> (outcome, clearTimeout timeoutId s2)))"

section \<open>Request executor (\<^verbatim>\<open>MVSEPClient.request\<close> in \<^verbatim>\<open>client.ts\<close>)\<close>

text \<open>
  What \<^verbatim>\<open>makeRequest\<close> reads off a \<^verbatim>\<open>Response\<close>: the status line, the headers (names in
  lower case, as \<^verbatim>\<open>Headers\<close> keeps them), and what \<^verbatim>\<open>response.json()\<close> and
  \<^verbatim>\<open>response.text()\<close> settle to (\<open>Inl\<close> is a rejection, such as the \<^verbatim>\<open>SyntaxError\<close> of a
  body that is not JSON). \<^verbatim>\<open>response.ok\<close> is the status range 200 to 299.
\<close>

record response =
  resp_status :: int
  resp_statusText :: string
  resp_headers :: headers
  resp_json :: "error + json"
  resp_text :: "error + string"

definition response_ok :: "response \<Rightarrow> bool" where
  "response_ok r = (200 \<le> resp_status r \<and> resp_status r \<le> 299)"

text \<open>\<^verbatim>\<open>String.prototype.includes\<close>.\<close>

fun str_includes :: "string \<Rightarrow> string \<Rightarrow> bool" where
  "str_includes [] sub = (sub = [])"
| "str_includes (c # cs) sub = (take (length sub) (c # cs) = sub \<or> str_includes cs sub)"

text \<open>
  Reading the property \<^verbatim>\<open>message\<close> or \<^verbatim>\<open>errors\<close> of the body: an object yields its own
  property or \<^verbatim>\<open>undefined\<close>, \<^verbatim>\<open>null\<close> throws a \<^verbatim>\<open>TypeError\<close>, and a string, number,
  boolean or array has neither property.
\<close>

fun getProp :: "json \<Rightarrow> string \<Rightarrow> error + json option" where
  "getProp JNull prop = Inl (nullishTypeError ''null'' prop)"
| "getProp (JObj kvs) prop = Inr (map_of kvs prop)"
| "getProp v prop = Inr None"

text \<open>
  Body parsing (lines 132 to 140): the content type decides between
  \<^verbatim>\<open>response.json()\<close> and \<^verbatim>\<open>response.text()\<close>.
\<close>

definition readBody :: "response \<Rightarrow> error + json" where
  "readBody r =
     (if (case map_of (resp_headers r) ''content-type'' of
            None \<Rightarrow> False
          | Some ct \<Rightarrow> str_includes ct ''application/json'')
      then resp_json r
      else (case resp_text r of Inl e \<Rightarrow> Inl e | Inr t \<Rightarrow> Inr (JStr t)))"

text \<open>
  The value thrown by the block under \<^verbatim>\<open>if (!response.ok)\<close> (lines 143 to 179), given
  the parsed body \<open>data\<close>. The arguments of each constructor are evaluated in order, so
  \<^verbatim>\<open>data.message\<close> on a \<^verbatim>\<open>null\<close> body throws before any SDK error is built.
\<close>

definition failedResponseError ::
  "(string \<Rightarrow> int option) \<Rightarrow> int \<Rightarrow> response \<Rightarrow> json \<Rightarrow> error" where
  "failedResponseError dateParse now r data =
     (if resp_status r = 429 then
        (let retryAfter = parseRetryAfter dateParse now (map_of (resp_headers r) ''retry-after'')
         in case getProp data ''message'' of
              Inl thrown \<Rightarrow> thrown
            | Inr m \<Rightarrow>
                RateLimitError (resp_status r) (resp_statusText r)
                  (orElse m (JStr ''Rate limit exceeded'')) (Some data) (Some retryAfter))
      else if resp_status r = 401 \<or> resp_status r = 403 then
        (case getProp data ''message'' of
           Inl thrown \<Rightarrow> thrown
         | Inr m \<Rightarrow> AuthenticationError (orElse m (JStr ''Authentication failed'')))
      else if resp_status r = 400 \<or> resp_status r = 422 then
        (case getProp data ''message'' of
           Inl thrown \<Rightarrow> thrown
         | Inr m \<Rightarrow>
             (case getProp data ''errors'' of
                Inl thrown \<Rightarrow> thrown
              | Inr es \<Rightarrow> ValidationError (orElse m (JStr ''Validation failed'')) es))
      else
        (case getProp data ''message'' of
           Inl thrown \<Rightarrow> thrown
         | Inr m \<Rightarrow>
             APIError (resp_status r) (resp_statusText r)
               (orElse m (JStr (''API request failed with status '' @ showInt (resp_status r))))
               (Some data) (Some (resp_headers r))))"

text \<open>
  The \<^verbatim>\<open>try\<close> block of \<^verbatim>\<open>makeRequest\<close>. Its input \<open>fetched\<close> is what
  \<^verbatim>\<open>await withTimeout(fetch(url, requestOptions), this.timeout)\<close> settles to: a response,
  or the rejection of \<^verbatim>\<open>fetch\<close> or of the timeout wrapper. Debug logging is left out.
\<close>

definition makeRequestTry ::
  "(string \<Rightarrow> int option) \<Rightarrow> int \<Rightarrow> error + response \<Rightarrow> error + json" where
  "makeRequestTry dateParse now fetched =
     (case fetched of
        Inl e \<Rightarrow> Inl e
      | Inr r \<Rightarrow>
          (case readBody r of
             Inl e \<Rightarrow> Inl e
           | Inr data \<Rightarrow>
               if \<not> response_ok r then Inl (failedResponseError dateParse now r data)
               else Inr data))"

text \<open>
  The \<^verbatim>\<open>catch\<close> block of \<^verbatim>\<open>makeRequest\<close>: the value it throws for a caught \<open>e\<close>. SDK errors
  pass; anything else is wrapped into a \<^verbatim>\<open>NetworkError\<close>.
\<close>

fun jsMessage :: "error \<Rightarrow> string" where
  "jsMessage (JSError n m c s h) = m"
| "jsMessage e = []"

definition makeRequestCatch :: "error \<Rightarrow> error" where
  "makeRequestCatch e =
     (if instanceofMVSEPError e then e
      else if e = JSUndefined then nullishTypeError ''undefined'' ''name''
      else if error_name e = ''TypeError'' \<or> error_code e = Some ''ECONNREFUSED''
        then NetworkError (JStr (''Network request failed: '' @ jsMessage e)) (Some e)
      else if instanceofTimeoutError e then e
      else NetworkError (JStr (''Request failed: '' @ jsMessage e)) (Some e))"

definition makeRequest ::
  "(string \<Rightarrow> int option) \<Rightarrow> int \<Rightarrow> error + response \<Rightarrow> error + json" where
  "makeRequest dateParse now fetched =
     (case makeRequestTry dateParse now fetched of
        Inl e \<Rightarrow> Inl (makeRequestCatch e)
      | Inr data \<Rightarrow> Inr data)"

text \<open>
  The client and its constructor. \<^verbatim>\<open>a || d\<close> on a number or string takes the default
  for \<^verbatim>\<open>undefined\<close>, 0 and the empty string; \<^verbatim>\<open>a ?? d\<close> only for \<^verbatim>\<open>undefined\<close>.
\<close>

definition DEFAULT_BASE_URL :: string where "DEFAULT_BASE_URL = ''https://mvsep.com''"
definition DEFAULT_TIMEOUT :: int where "DEFAULT_TIMEOUT = 30000"
definition DEFAULT_MAX_RETRIES :: int where "DEFAULT_MAX_RETRIES = 3"
definition DEFAULT_RETRY_DELAY :: int where "DEFAULT_RETRY_DELAY = 1000"
definition DEFAULT_POLL_INTERVAL :: int where "DEFAULT_POLL_INTERVAL = 5000"
definition DEFAULT_POLL_MAX_DURATION :: int where "DEFAULT_POLL_MAX_DURATION = 1800000"

definition numberOr :: "int option \<Rightarrow> int \<Rightarrow> int" where
  "numberOr a d = (case a of None \<Rightarrow> d | Some v \<Rightarrow> if v \<noteq> 0 then v else d)"

definition stringOr :: "string option \<Rightarrow> string \<Rightarrow> string" where
  "stringOr a d = (case a of None \<Rightarrow> d | Some v \<Rightarrow> if v \<noteq> [] then v else d)"

definition nullishOr :: "'a option \<Rightarrow> 'a \<Rightarrow> 'a" where
  "nullishOr a d = (case a of None \<Rightarrow> d | Some v \<Rightarrow> v)"

record MVSEPConfig =
  cfg_apiToken :: string
  cfg_baseURL :: "string option"
  cfg_timeout :: "int option"
  cfg_maxRetries :: "int option"
  cfg_retryDelay :: "int option"
  cfg_debug :: "bool option"
  cfg_customHeaders :: "headers option"

record MVSEPClient =
  apiToken :: string
  baseURL :: string
  client_timeout :: int
  client_maxRetries :: int
  client_retryDelay :: int
  debug :: bool
  customHeaders :: headers

definition newMVSEPClient :: "MVSEPConfig \<Rightarrow> error + MVSEPClient" where
  "newMVSEPClient config =
     (if cfg_apiToken config = [] then Inl (ValidationError (JStr ''API token is required'') None)
      else Inr \<lparr> apiToken = cfg_apiToken config,
                 baseURL = stringOr (cfg_baseURL config) DEFAULT_BASE_URL,
                 client_timeout = numberOr (cfg_timeout config) DEFAULT_TIMEOUT,
                 client_maxRetries = nullishOr (cfg_maxRetries config) DEFAULT_MAX_RETRIES,
                 client_retryDelay = numberOr (cfg_retryDelay config) DEFAULT_RETRY_DELAY,
                 debug = (case cfg_debug config of None \<Rightarrow> False | Some b \<Rightarrow> b),
                 customHeaders = nullishOr (cfg_customHeaders config) [] \<rparr>)"

text \<open>
  The environment of one \<^verbatim>\<open>request\<close>: the \<open>k\<close>-th \<^verbatim>\<open>fetch\<close> (under its timeout wrapper)
  takes \<open>fetch_ms k\<close> milliseconds and settles to \<open>fetched k\<close>. \<^verbatim>\<open>request\<close> hands
  \<^verbatim>\<open>makeRequest\<close> to \<^verbatim>\<open>retryWithBackoff\<close> with the client's retry configuration and the
  default \<^verbatim>\<open>isRetryableError\<close>.
\<close>

record http_env =
  fetched :: "nat \<Rightarrow> error + response"
  fetch_ms :: "nat \<Rightarrow> nat"
  http_timer_late :: "nat \<Rightarrow> nat"
  http_date_parse :: "string \<Rightarrow> int option"

definition makeRequestEnv :: "http_env \<Rightarrow> json retry_env" where
  "makeRequestEnv h =
     \<lparr> fn_result = (\<lambda>k t. makeRequest (http_date_parse h) t (fetched h k)),
       fn_ms = fetch_ms h,
       timer_late = http_timer_late h,
       date_parse = http_date_parse h \<rparr>"

definition request :: "MVSEPClient \<Rightarrow> http_env \<Rightarrow> retry_state \<Rightarrow> (error + json) \<times> retry_state" where
  "request client h s =
     retryWithBackoff (makeRequestEnv h)
       \<lparr> maxRetries = client_maxRetries client,
         retryDelay = client_retryDelay client,
         timeout = client_timeout client \<rparr>
       isRetryableError s"

section \<open>Job poller (\<^verbatim>\<open>MVSEPClient.waitForSeparation\<close> in \<^verbatim>\<open>client.ts\<close>)\<close>

text \<open>
  \<^verbatim>\<open>SeparationStatusType = 'waiting' | 'processing' | 'done' | 'error'\<close>; the payload
  (\<^verbatim>\<open>SeparationData | QueueData\<close>) is a type parameter, since the poller only passes it on.
\<close>

datatype SeparationStatusType = Waiting | Processing | Done | Error

record 'd SeparationResponse =
  sr_success :: bool
  sr_status :: SeparationStatusType
  sr_data :: 'd

record 'd SeparationStatus =
  ss_hash :: string
  ss_status :: SeparationStatusType
  ss_data :: "'d option"
  ss_progress :: "int option"

text \<open>
  \<^verbatim>\<open>PollingOptions\<close>. The callback is a JavaScript closure: its \<open>k\<close>-th invocation (from
  0) on a snapshot returns (\<open>None\<close>) or throws (\<open>Some e\<close>).
\<close>

record 'd PollingOptions =
  po_interval :: "int option"
  po_maxDuration :: "int option"
  po_onProgress :: "(nat \<Rightarrow> 'd SeparationStatus \<Rightarrow> error option) option"

text \<open>
  The environment of one polling session: the \<open>k\<close>-th call of
  \<^verbatim>\<open>this.getSeparation(hash)\<close> (one retried request of the executor above, typed by its
  declared result \<^verbatim>\<open>SeparationResponse\<close>) takes \<open>getSeparation_ms k\<close> milliseconds and
  settles to \<open>getSeparation k\<close>; the \<open>k\<close>-th timer fires \<open>poll_timer_late k\<close>
  milliseconds late. The session changes the clock, the number of status fetches, the
  snapshots handed to the callback and the intervals slept.
\<close>

record 'd poll_env =
  getSeparation :: "nat \<Rightarrow> error + 'd SeparationResponse"
  getSeparation_ms :: "nat \<Rightarrow> nat"
  poll_timer_late :: "nat \<Rightarrow> nat"

record 'd poll_state =
  ps_now :: int
  ps_fetches :: nat
  ps_progress :: "'d SeparationStatus list"
  ps_sleeps :: "int list"

definition pollSleep :: "'d poll_env \<Rightarrow> int \<Rightarrow> 'd poll_state \<Rightarrow> 'd poll_state" where
  "pollSleep env ms s =
     s\<lparr> ps_now := ps_now s + timerDelay ms + int (poll_timer_late env (length (ps_sleeps s))),
        ps_sleeps := ps_sleeps s @ [ms] \<rparr>"

text \<open>
  The state after the status fetch of an iteration, and the object literal
  \<^verbatim>\<open>{ hash, status: status.status, data: status.data }\<close> handed to the callback.
\<close>

definition afterFetch :: "'d poll_env \<Rightarrow> 'd poll_state \<Rightarrow> 'd poll_state" where
  "afterFetch env s =
     s\<lparr> ps_now := ps_now s + int (getSeparation_ms env (ps_fetches s)),
        ps_fetches := ps_fetches s + 1 \<rparr>"

definition progressSnapshot :: "string \<Rightarrow> 'd SeparationResponse \<Rightarrow> 'd SeparationStatus" where
  "progressSnapshot hash status =
     \<lparr> ss_hash = hash, ss_status = sr_status status, ss_data = Some (sr_data status),
       ss_progress = None \<rparr>"

definition afterProgress :: "'d SeparationStatus \<Rightarrow> 'd poll_state \<Rightarrow> 'd poll_state" where
  "afterProgress snapshot s = s\<lparr> ps_progress := ps_progress s @ [snapshot] \<rparr>"

text \<open>
  \<^verbatim>\<open>if (options.onProgress) { options.onProgress({...}) }\<close>: what the call throws, if
  anything, and the state after it. Without a callback nothing happens.
\<close>

definition callOnProgress ::
  "(nat \<Rightarrow> 'd SeparationStatus \<Rightarrow> error option) option \<Rightarrow> string \<Rightarrow> 'd SeparationResponse
     \<Rightarrow> 'd poll_state \<Rightarrow> error option \<times> 'd poll_state" where
  "callOnProgress onProgress hash status s =
     (case onProgress of
        None \<Rightarrow> (None, s)
      | Some callback \<Rightarrow>
          (callback (length (ps_progress s)) (progressSnapshot hash status),
           afterProgress (progressSnapshot hash status) s))"

text \<open>
  The \<^verbatim>\<open>while (true)\<close> loop of \<^verbatim>\<open>waitForSeparation\<close>, from the state \<open>s\<close> at the head of
  an iteration: deadline check, status fetch, progress callback, \<^verbatim>\<open>done\<close> check,
  \<^verbatim>\<open>error\<close> check, sleep. Every iteration that goes round lets at least one
  millisecond pass, so the loop ends at the latest when the deadline check fires.
\<close>

function waitLoop ::
  "'d poll_env \<Rightarrow> string \<Rightarrow> (nat \<Rightarrow> 'd SeparationStatus \<Rightarrow> error option) option \<Rightarrow> int \<Rightarrow> int
     \<Rightarrow> int \<Rightarrow> 'd poll_state \<Rightarrow> (error + 'd SeparationResponse) \<times> 'd poll_state" where
  "waitLoop env hash onProgress interval maxDuration startTime s =
     (if ps_now s - startTime > maxDuration then
        (Inl (TimeoutError
                (JStr (''Separation job timed out after '' @ showInt maxDuration @ ''ms''))), s)
      else
        (case getSeparation env (ps_fetches s) of
           Inl e \<Rightarrow> (Inl e, afterFetch env s)
         | Inr status \<Rightarrow>
             (case callOnProgress onProgress hash status (afterFetch env s) of
                (Some e, s2) \<Rightarrow> (Inl e, s2)
              | (None, s2) \<Rightarrow>
                  if sr_status status = Done then (Inr status, s2)
                  else if sr_status status = Error then
                    (Inl (SeparationError (JStr ''Separation job failed'') (Some hash)), s2)
                  else waitLoop env hash onProgress interval maxDuration startTime
                         (pollSleep env interval s2))))"
  by pat_completeness auto
termination
proof (relation "measure (\<lambda>(env, hash, onProgress, interval, maxDuration, startTime, s).
                   nat (startTime + maxDuration + 1 - ps_now s))", goal_cases)
  case 1
  show ?case by simp
next
  case (2 env hash onProgress interval maxDuration startTime s status thrown s2)
  have "0 < timerDelay interval" by (simp add: timerDelay_def)
  moreover have "ps_now s2 = ps_now (afterFetch env s)"
    using 2(3) by (cases onProgress) (auto simp add: callOnProgress_def afterProgress_def)
  ultimately show ?case using 2(1) by (simp add: pollSleep_def afterFetch_def)
qed

definition waitForSeparation ::
  "'d poll_env \<Rightarrow> string \<Rightarrow> 'd PollingOptions \<Rightarrow> 'd poll_state
     \<Rightarrow> (error + 'd SeparationResponse) \<times> 'd poll_state" where
  "waitForSeparation env hash options s =
     (let interval = numberOr (po_interval options) DEFAULT_POLL_INTERVAL;
          maxDuration = numberOr (po_maxDuration options) DEFAULT_POLL_MAX_DURATION;
          startTime = ps_now s
      in waitLoop env hash (po_onProgress options) interval maxDuration startTime s)"

section \<open>Concrete scenarios\<close>

text \<open>
  The fixtures of \<^verbatim>\<open>tests/client.test.ts\<close>: \<^verbatim>\<open>mockResponse(data, status)\<close> and
  \<^verbatim>\<open>mockErrorResponse(status, message)\<close> build a JSON response; a server answers the
  \<open>k\<close>-th fetch with the \<open>k\<close>-th response of a list and with a fixed response after
  that. Each fetch takes 5 ms, timers are punctual, and no header parses as a date.
\<close>

definition mockResponse :: "json \<Rightarrow> int \<Rightarrow> response" where
  "mockResponse data status =
     \<lparr> resp_status = status,
       resp_statusText = (if status = 200 then ''OK'' else ''Error''),
       resp_headers = [(''content-type'', ''application/json'')],
       resp_json = Inr data,
       resp_text = Inr [] \<rparr>"

definition mockErrorResponse :: "int \<Rightarrow> string \<Rightarrow> response" where
  "mockErrorResponse status message =
     mockResponse (JObj [(''success'', JBool False), (''message'', JStr message)]) status"

definition noDate :: "string \<Rightarrow> int option" where
  "noDate s = None"

definition serverSequence :: "response list \<Rightarrow> response \<Rightarrow> http_env" where
  "serverSequence rs final =
     \<lparr> fetched = (\<lambda>k. Inr (if k < length rs then rs ! k else final)),
       fetch_ms = (\<lambda>k. 5),
       http_timer_late = (\<lambda>k. 0),
       http_date_parse = noDate \<rparr>"

definition testClient :: "int \<Rightarrow> MVSEPClient" where
  "testClient n =
     \<lparr> apiToken = ''test-token-123'', baseURL = DEFAULT_BASE_URL,
       client_timeout = DEFAULT_TIMEOUT, client_maxRetries = n,
       client_retryDelay = DEFAULT_RETRY_DELAY, debug = False, customHeaders = [] \<rparr>"

definition retryStart :: retry_state where
  "retryStart = \<lparr> rs_now = 0, rs_calls = 0, rs_sleeps = [] \<rparr>"

definition e503 :: response where
  "e503 = mockErrorResponse 503 ''Service unavailable''"

definition three503sThen200 :: http_env where
  "three503sThen200 = serverSequence [e503, e503, e503] (mockResponse (JArr []) 200)"

definition two503sThen200 :: http_env where
  "two503sThen200 = serverSequence [e503, e503] (mockResponse (JArr []) 200)"

definition e400NullBody :: response where
  "e400NullBody = mockResponse JNull 400"

definition e400EmptyBody :: response where
  "e400EmptyBody =
     (mockResponse JNull 400)
       \<lparr> resp_json := Inl (JSError ''SyntaxError'' ''Unexpected end of JSON input'' None None None) \<rparr>"

definition e401NullBody :: response where
  "e401NullBody = mockResponse JNull 401"

definition e422EmptyBody :: response where
  "e422EmptyBody =
     (mockResponse JNull 422)
       \<lparr> resp_json := Inl (JSError ''SyntaxError'' ''Unexpected end of JSON input'' None None None) \<rparr>"

text \<open>
  Operations that resolve with \<open>"ok"\<close> after 5 ms and after 25 ms, one that never
  settles, and a timer table with one other timer pending.
\<close>

definition settlesAt5 :: "json operation" where
  "settlesAt5 = \<lparr> op_settles = Some 5, op_result = Inr (JStr ''ok''), op_first_on_tie = False \<rparr>"

definition settlesAt25 :: "json operation" where
  "settlesAt25 = \<lparr> op_settles = Some 25, op_result = Inr (JStr ''ok''), op_first_on_tie = False \<rparr>"

definition neverSettles :: "json operation" where
  "neverSettles = \<lparr> op_settles = None, op_result = Inr JNull, op_first_on_tie = False \<rparr>"

definition oneOtherTimer :: timers where
  "oneOtherTimer = \<lparr> tm_now = 0, tm_pending = [0], tm_next = 1 \<rparr>"

definition zeroConfig :: MVSEPConfig where
  "zeroConfig =
     \<lparr> cfg_apiToken = ''test-token-123'', cfg_baseURL = Some [], cfg_timeout = Some 0,
       cfg_maxRetries = Some 0, cfg_retryDelay = Some 0, cfg_debug = None,
       cfg_customHeaders = None \<rparr>"

text \<open>
  The polling fixtures of \<^verbatim>\<open>tests/client.test.ts\<close>: status responses with a JSON payload,
  a job that answers the \<open>k\<close>-th status fetch with the \<open>k\<close>-th response of a list and
  with a fixed response after that (each fetch taking 2 ms, timers punctual), a callback
  that returns normally, and a callback that throws on every call.
\<close>

definition statusResponse :: "SeparationStatusType \<Rightarrow> json \<Rightarrow> json SeparationResponse" where
  "statusResponse st payload = \<lparr> sr_success = True, sr_status = st, sr_data = payload \<rparr>"

definition jobSequence :: "json SeparationResponse list \<Rightarrow> json SeparationResponse \<Rightarrow> json poll_env" where
  "jobSequence rs final =
     \<lparr> getSeparation = (\<lambda>k. Inr (if k < length rs then rs ! k else final)),
       getSeparation_ms = (\<lambda>k. 2),
       poll_timer_late = (\<lambda>k. 0) \<rparr>"

definition waitingJob :: "json SeparationResponse" where
  "waitingJob = statusResponse Waiting (JObj [(''queue_count'', JNum 2), (''current_order'', JNum 1)])"

definition processingJob :: "json SeparationResponse" where
  "processingJob =
     statusResponse Processing (JObj [(''queue_count'', JNum 1), (''current_order'', JNum 1)])"

definition doneJob :: "json SeparationResponse" where
  "doneJob = statusResponse Done (JObj [(''algorithm'', JStr ''MDX23C''), (''files'', JArr [])])"

definition waitingProcessingDone :: "json poll_env" where
  "waitingProcessingDone = jobSequence [waitingJob, processingJob] doneJob"


definition quietCallback :: "nat \<Rightarrow> json SeparationStatus \<Rightarrow> error option" where
  "quietCallback k snapshot = None"

definition throwingCallback :: "nat \<Rightarrow> json SeparationStatus \<Rightarrow> error option" where
  "throwingCallback k snapshot = Some (JSError ''Error'' ''callback failed'' None None None)"

definition pollingOptions ::
  "int \<Rightarrow> int option \<Rightarrow> (nat \<Rightarrow> json SeparationStatus \<Rightarrow> error option) option
     \<Rightarrow> json PollingOptions" where
  "pollingOptions interval maxDuration callback =
     \<lparr> po_interval = Some interval, po_maxDuration = maxDuration, po_onProgress = callback \<rparr>"

definition pollStart :: "json poll_state" where
  "pollStart = \<lparr> ps_now = 0, ps_fetches = 0, ps_progress = [], ps_sleeps = [] \<rparr>"

section \<open>Verified properties\<close>

subsection \<open>Exponential backoff\<close>

lemma cap_below_overflow: "32000 \<le> doubleOverflow"
  by (simp add: doubleOverflow_def)

lemma overflow_from_1024:
  assumes "\<not> a < 1024"
  shows "doubleOverflow \<le> 2 ^ a"
  unfolding doubleOverflow_def using assms by (intro power_increasing) simp_all

lemma calculateBackoff_positive_base:
  assumes "0 < b"
  shows "calculateBackoff a b = Finite (min (b * 2 ^ a) 32000)"
proof (cases "a < 1024")
  case True
  have "0 < b * 2 ^ a" using assms by simp
  moreover have "0 < doubleOverflow" using cap_below_overflow by linarith
  ultimately show ?thesis
    using True cap_below_overflow by (simp add: calculateBackoff_def pow2_def min_def)
next
  case False
  have "(2::int) ^ a \<le> b * 2 ^ a" using assms by simp
  then have "32000 \<le> b * 2 ^ a"
    using overflow_from_1024 [OF False] cap_below_overflow by linarith
  then show ?thesis using False assms by (simp add: calculateBackoff_def pow2_def)
qed

lemma calculateBackoff_zero_base:
  "calculateBackoff a 0 = (if a < 1024 then Finite 0 else NaN)"
  using cap_below_overflow by (simp add: calculateBackoff_def pow2_def)

text \<open>
  Where the backoff is as specified: for a positive base it is the integer
  \<open>min (base * 2^attempt) 32000\<close> at every attempt index, so it is non-decreasing in the
  attempt and never above 32000; for a base of 0 the same holds at attempt indices below
  1024.
\<close>

lemma calculateBackoff_holds_elsewhere:
  "(0 < b \<longrightarrow> i \<le> j \<longrightarrow> js_le (calculateBackoff i b) (calculateBackoff j b))
   \<and> (j < 1024 \<longrightarrow> i \<le> j \<longrightarrow> js_le (calculateBackoff i 0) (calculateBackoff j 0))
   \<and> (0 < b \<or> (b = 0 \<and> a < 1024) \<longrightarrow>
        js_le (calculateBackoff a b) (Finite 32000)
        \<and> calculateBackoff a b = Finite (min (b * 2 ^ a) 32000))"
proof -
  have mono: "js_le (calculateBackoff i b) (calculateBackoff j b)" if "0 < b" "i \<le> j"
  proof -
    have "(2::int) ^ i \<le> 2 ^ j" using that(2) by (simp add: power_increasing)
    then have "b * 2 ^ i \<le> b * 2 ^ j" using that(1) by simp
    then have "min (b * 2 ^ i) 32000 \<le> min (b * 2 ^ j) 32000" by (rule min.mono) simp
    then show ?thesis using that(1) by (simp only: calculateBackoff_positive_base js_le.simps)
  qed
  have zero: "js_le (calculateBackoff i 0) (calculateBackoff j 0)" if "j < 1024" "i \<le> j"
    using that by (simp add: calculateBackoff_zero_base)
  have cap: "js_le (calculateBackoff a b) (Finite 32000)
        \<and> calculateBackoff a b = Finite (min (b * 2 ^ a) 32000)"
    if "0 < b \<or> (b = 0 \<and> a < 1024)"
    using that by (auto simp add: calculateBackoff_positive_base calculateBackoff_zero_base)
  show ?thesis using mono zero cap by blast
qed

text \<open>
  C4: the backoff should be non-decreasing in the attempt index and never exceed 32000 ms
  for every non-negative base and attempt. For a base of 0 and an attempt index of 1024
  the product \<^verbatim>\<open>0 * Math.pow(2, 1024)\<close> is \<^verbatim>\<open>0 * Infinity\<close>, so \<^verbatim>\<open>Math.min\<close> returns
  \<^verbatim>\<open>NaN\<close>: the result is not a delay at or below the cap, and it does not compare as
  at least the backoff of attempt 0.
\<close>

theorem calculateBackoff_zero_base_nan:
  "calculateBackoff 1024 0 = NaN
   \<and> \<not> js_le (calculateBackoff 1024 0) (Finite 32000)
   \<and> calculateBackoff 0 0 = Finite 0
   \<and> \<not> js_le (calculateBackoff 0 0) (calculateBackoff 1024 0)"
  by (simp add: calculateBackoff_zero_base)

subsection \<open>The timeout wrapper\<close>

lemma timerDelay_in_range:
  assumes "1 \<le> d" and "d \<le> 2147483647"
  shows "timerDelay d = d"
  using assms by (simp add: timerDelay_def)

lemma withTimeout_pending:
  "tm_pending (snd (withTimeout promise d timeoutError late s))
     = filter (\<lambda>i. i \<noteq> tm_next s) (tm_pending s)"
  by (simp add: withTimeout_def setTimeout_def clearTimeout_def timerFires_def
        split: option.splits)

lemma withTimeout_operation_first:
  assumes "op_settles promise = Some t" and "int t < timerDelay d + int late"
  shows "fst (withTimeout promise d timeoutError late s) = op_result promise"
    and "tm_now (snd (withTimeout promise d timeoutError late s)) = tm_now s + int t"
  using assms
  by (simp_all add: withTimeout_def setTimeout_def clearTimeout_def)

lemma withTimeout_timer_first:
  assumes "\<forall>t. op_settles promise = Some t \<longrightarrow> timerDelay d + int late < int t"
  shows "fst (withTimeout promise d timeoutError late s) = Inl (defaultTimeoutError d timeoutError)"
    and "tm_now (snd (withTimeout promise d timeoutError late s))
           = tm_now s + timerDelay d + int late"
  using assms
  by (auto simp add: withTimeout_def setTimeout_def clearTimeout_def timerFires_def
        split: option.splits)

lemma defaultTimeoutError_is_timeout: "instanceofTimeoutError (defaultTimeoutError d None)"
  by (simp add: defaultTimeoutError_def)

text \<open>
  C7 (as amended): \<^verbatim>\<open>withTimeout(operation, d)\<close> returns the operation's own result or
  rejection when the operation settles before the timer fires, and rejects with the
  timeout error, at the moment the timer fires, when the operation settles after that or
  never. The timer fires \<open>timerDelay d\<close> milliseconds after the call plus its lateness:
  that is when \<open>d\<close> elapses for \<open>1 \<le> d \<le> 2^31 - 1\<close> and a punctual timer. On either
  outcome the timer set by the call is no longer pending afterwards, and the other
  pending timers are as before.
\<close>

theorem withTimeout_settle_or_timeout:
  "(op_settles promise = Some t \<longrightarrow> int t < timerDelay d + int late \<longrightarrow>
      fst (withTimeout promise d timeoutError late s) = op_result promise
    \<and> tm_now (snd (withTimeout promise d timeoutError late s)) = tm_now s + int t)
   \<and> ((\<forall>u. op_settles promise = Some u \<longrightarrow> timerDelay d + int late < int u) \<longrightarrow>
      fst (withTimeout promise d timeoutError late s) = Inl (defaultTimeoutError d timeoutError)
    \<and> tm_now (snd (withTimeout promise d timeoutError late s))
        = tm_now s + timerDelay d + int late)
   \<and> (1 \<le> d \<longrightarrow> d \<le> 2147483647 \<longrightarrow> op_settles promise = Some t \<longrightarrow> int t < d \<longrightarrow>
      fst (withTimeout promise d timeoutError 0 s) = op_result promise)
   \<and> (1 \<le> d \<longrightarrow> d \<le> 2147483647 \<longrightarrow> (\<forall>u. op_settles promise = Some u \<longrightarrow> d < int u) \<longrightarrow>
      fst (withTimeout promise d timeoutError 0 s) = Inl (defaultTimeoutError d timeoutError)
    \<and> tm_now (snd (withTimeout promise d timeoutError 0 s)) = tm_now s + d)
   \<and> instanceofTimeoutError (defaultTimeoutError d None)
   \<and> tm_pending (snd (withTimeout promise d timeoutError late s))
        = filter (\<lambda>i. i \<noteq> tm_next s) (tm_pending s)
   \<and> tm_next s \<notin> set (tm_pending (snd (withTimeout promise d timeoutError late s)))"
proof -
  have first: "fst (withTimeout promise d timeoutError late s) = op_result promise
      \<and> tm_now (snd (withTimeout promise d timeoutError late s)) = tm_now s + int t"
    if "op_settles promise = Some t" "int t < timerDelay d + int late"
    using withTimeout_operation_first [OF that] by simp
  have timer: "fst (withTimeout promise d timeoutError late s)
        = Inl (defaultTimeoutError d timeoutError)
      \<and> tm_now (snd (withTimeout promise d timeoutError late s))
        = tm_now s + timerDelay d + int late"
    if "\<forall>u. op_settles promise = Some u \<longrightarrow> timerDelay d + int late < int u"
    using withTimeout_timer_first [OF that] by simp
  have first_in_range: "fst (withTimeout promise d timeoutError 0 s) = op_result promise"
    if "1 \<le> d" "d \<le> 2147483647" "op_settles promise = Some t" "int t < d"
  proof -
    have "int t < timerDelay d + int 0" using that by (simp add: timerDelay_in_range)
    then show ?thesis using withTimeout_operation_first(1) [OF that(3)] by blast
  qed
  have timer_in_range: "fst (withTimeout promise d timeoutError 0 s)
        = Inl (defaultTimeoutError d timeoutError)
      \<and> tm_now (snd (withTimeout promise d timeoutError 0 s)) = tm_now s + d"
    if "1 \<le> d" "d \<le> 2147483647" "\<forall>u. op_settles promise = Some u \<longrightarrow> d < int u"
  proof -
    have td: "timerDelay d = d" using that(1,2) by (rule timerDelay_in_range)
    have "\<forall>u. op_settles promise = Some u \<longrightarrow> timerDelay d + int 0 < int u"
      using that(3) td by simp
    then show ?thesis using withTimeout_timer_first [of promise d 0 timeoutError s] td by simp
  qed
  have pend: "tm_pending (snd (withTimeout promise d timeoutError late s))
        = filter (\<lambda>i. i \<noteq> tm_next s) (tm_pending s)"
    by (rule withTimeout_pending)
  then have gone: "tm_next s \<notin> set (tm_pending (snd (withTimeout promise d timeoutError late s)))"
    by simp
  show ?thesis
    using first timer first_in_range timer_in_range defaultTimeoutError_is_timeout pend gone
    by (intro conjI impI) blast+
qed

theorem withTimeout_settle_or_timeout_witness:
  "fst (withTimeout settlesAt5 20 None 0 oneOtherTimer) = Inr (JStr ''ok'')
   \<and> fst (withTimeout neverSettles 20 None 0 oneOtherTimer) = Inl (defaultTimeoutError 20 None)
   \<and> tm_now (snd (withTimeout neverSettles 20 None 0 oneOtherTimer)) = 20
   \<and> tm_pending (snd (withTimeout settlesAt5 20 None 0 oneOtherTimer)) = [0]
   \<and> tm_pending (snd (withTimeout neverSettles 20 None 0 oneOtherTimer)) = [0]"
proof -
  have td: "timerDelay 20 = 20" by (simp add: timerDelay_def)
  have s5: "op_settles settlesAt5 = Some 5" "op_result settlesAt5 = Inr (JStr ''ok'')"
    by (simp_all add: settlesAt5_def)
  have nv: "\<forall>u. op_settles neverSettles = Some u \<longrightarrow> timerDelay 20 + int 0 < int u"
    by (simp add: neverSettles_def)
  have t0: "tm_now oneOtherTimer = 0" "tm_pending oneOtherTimer = [0]" "tm_next oneOtherTimer = 1"
    by (simp_all add: oneOtherTimer_def)
  note a = withTimeout_settle_or_timeout
    [where promise = settlesAt5 and t = 5 and d = 20 and late = 0 and timeoutError = None
       and s = oneOtherTimer]
  note b = withTimeout_settle_or_timeout
    [where promise = neverSettles and t = 5 and d = 20 and late = 0 and timeoutError = None
       and s = oneOtherTimer]
  have "fst (withTimeout settlesAt5 20 None 0 oneOtherTimer) = Inr (JStr ''ok'')"
    using a s5 td by simp
  moreover have "fst (withTimeout neverSettles 20 None 0 oneOtherTimer)
      = Inl (defaultTimeoutError 20 None)
    \<and> tm_now (snd (withTimeout neverSettles 20 None 0 oneOtherTimer)) = 20"
    using b nv td t0 by simp
  moreover have "tm_pending (snd (withTimeout settlesAt5 20 None 0 oneOtherTimer)) = [0]"
    using a t0 by simp
  moreover have "tm_pending (snd (withTimeout neverSettles 20 None 0 oneOtherTimer)) = [0]"
    using b t0 by simp
  ultimately show ?thesis by blast
qed

text \<open>
  C7 as stated fails for a duration above \<open>2^31 - 1\<close>: the host fires the timer after
  1 ms, so an operation that settles after 5 ms, long before \<open>d = 2^31\<close> ms elapse, is cut
  off by the timeout error. It fails for a late timer too: with \<open>d = 20\<close> and a timer
  that fires 10 ms late, an operation that settles after 25 ms still returns its result.
\<close>

theorem withTimeout_long_duration_counterexample:
  "op_settles settlesAt5 = Some 5 \<and> (5::int) < 2147483648
   \<and> fst (withTimeout settlesAt5 2147483648 None 0 oneOtherTimer)
       = Inl (defaultTimeoutError 2147483648 None)
   \<and> fst (withTimeout settlesAt5 2147483648 None 0 oneOtherTimer) \<noteq> op_result settlesAt5
   \<and> tm_now (snd (withTimeout settlesAt5 2147483648 None 0 oneOtherTimer)) = 1
   \<and> op_settles settlesAt25 = Some 25 \<and> (20::int) < 25
   \<and> fst (withTimeout settlesAt25 20 None 10 oneOtherTimer) = Inr (JStr ''ok'')"
  by (simp add: withTimeout_def setTimeout_def clearTimeout_def timerFires_def timerDelay_def
        settlesAt5_def settlesAt25_def oneOtherTimer_def)

subsection \<open>Unfolding the retry loop\<close>

declare retryLoop.simps [simp del]

declare waitLoop.simps [simp del]

declare showDecimal.simps [simp del]

lemma retryLoop_success:
  assumes "int attempt \<le> maxRetries config"
    and "fn_result env (rs_calls s) (rs_now s + int (fn_ms env (rs_calls s))) = Inr v"
  shows "retryLoop env config isRetryable attempt lastError s =
           (Inr v, s\<lparr> rs_now := rs_now s + int (fn_ms env (rs_calls s)), rs_calls := rs_calls s + 1 \<rparr>)"
  using assms by (subst retryLoop.simps) (simp add: Let_def)

lemma retryLoop_rethrow:
  assumes "int attempt \<le> maxRetries config"
    and "fn_result env (rs_calls s) (rs_now s + int (fn_ms env (rs_calls s))) = Inl e"
    and "isRetryable e = Inr retryable"
    and "\<not> retryable \<or> int attempt = maxRetries config"
  shows "retryLoop env config isRetryable attempt lastError s =
           (Inl e, s\<lparr> rs_now := rs_now s + int (fn_ms env (rs_calls s)), rs_calls := rs_calls s + 1 \<rparr>)"
  using assms by (subst retryLoop.simps) (auto simp add: Let_def)

lemma retryLoop_retry:
  assumes "int attempt < maxRetries config"
    and "fn_result env (rs_calls s) (rs_now s + int (fn_ms env (rs_calls s))) = Inl e"
    and "isRetryable e = Inr True"
    and "retryDelayFor (date_parse env) (rs_now s + int (fn_ms env (rs_calls s))) config attempt e = Inr delay"
  shows "retryLoop env config isRetryable attempt lastError s =
           retryLoop env config isRetryable (attempt + 1) (Some e)
             (sleep env delay
                (s\<lparr> rs_now := rs_now s + int (fn_ms env (rs_calls s)), rs_calls := rs_calls s + 1 \<rparr>))"
  using assms by (subst retryLoop.simps) (simp add: Let_def)

lemma retryLoop_isRetryable_throws:
  assumes "int attempt \<le> maxRetries config"
    and "fn_result env (rs_calls s) (rs_now s + int (fn_ms env (rs_calls s))) = Inl e"
    and "isRetryable e = Inl thrown"
  shows "retryLoop env config isRetryable attempt lastError s =
           (Inl thrown, s\<lparr> rs_now := rs_now s + int (fn_ms env (rs_calls s)), rs_calls := rs_calls s + 1 \<rparr>)"
  using assms by (subst retryLoop.simps) (simp add: Let_def)

lemma rs_calls_sleep: "rs_calls (sleep env d s) = rs_calls s"
  by (simp add: sleep_def)

lemma isRetryableError_status:
  assumes "error_status e = Some s" and "s \<in> set RETRYABLE_STATUS_CODES"
  shows "isRetryableError e = Inr True"
proof -
  have "s \<noteq> 0" using assms(2) by (auto simp: RETRYABLE_STATUS_CODES_def)
  moreover have "e \<noteq> JSUndefined" using assms(1) by auto
  ultimately show ?thesis using assms by (simp add: isRetryableError_def)
qed

lemma retryDelayFor_defined:
  assumes "e \<noteq> JSUndefined"
  shows "\<exists>d. retryDelayFor dp now config attempt e = Inr d"
  using assms by (simp add: retryDelayFor_def headerOrBackoff_def split: option.splits)

lemma makeRequest_ok:
  assumes "readBody r = Inr d" and "response_ok r"
  shows "makeRequest dp t (Inr r) = Inr d"
  using assms by (simp add: makeRequest_def makeRequestTry_def)

lemma makeRequest_not_ok:
  assumes "readBody r = Inr d" and "\<not> response_ok r"
  shows "makeRequest dp t (Inr r) = Inl (makeRequestCatch (failedResponseError dp t r d))"
  using assms by (simp add: makeRequest_def makeRequestTry_def)

lemma failedResponseError_null:
  "failedResponseError dp t r JNull = nullishTypeError ''null'' ''message''"
  by (simp add: failedResponseError_def Let_def)

lemma makeRequestCatch_null:
  "makeRequestCatch (nullishTypeError ''null'' ''message'') =
     NetworkError
       (JStr (''Network request failed: '' @ jsMessage (nullishTypeError ''null'' ''message'')))
       (Some (nullishTypeError ''null'' ''message''))"
  by (simp add: makeRequestCatch_def nullishTypeError_def)

lemma getProp_not_null:
  assumes "d \<noteq> JNull"
  shows "\<exists>m. getProp d prop = Inr m"
  using assms by (cases d) simp_all

lemma failedResponseError_503:
  assumes "resp_status r = 503" and "d \<noteq> JNull"
  shows "\<exists>m. failedResponseError dp t r d =
            APIError 503 (resp_statusText r) m (Some d) (Some (resp_headers r))"
proof -
  obtain m where "getProp d ''message'' = Inr m" using getProp_not_null [OF assms(2)] by blast
  then show ?thesis using assms(1) by (simp add: failedResponseError_def)
qed

lemma makeRequest_503:
  assumes "resp_status r = 503" and "readBody r = Inr d"
  shows "\<exists>e. makeRequest dp t (Inr r) = Inl e \<and> isRetryableError e = Inr True \<and> e \<noteq> JSUndefined
           \<and> (d \<noteq> JNull \<longrightarrow>
                (\<exists>m. e = APIError 503 (resp_statusText r) m (Some d) (Some (resp_headers r))))"
proof -
  have nok: "\<not> response_ok r" using assms(1) by (simp add: response_ok_def)
  show ?thesis
  proof (cases "d = JNull")
    case True
    then show ?thesis
      using makeRequest_not_ok [OF assms(2) nok, of dp t]
      by (simp add: failedResponseError_null makeRequestCatch_null isRetryableError_def)
  next
    case False
    then obtain m where m: "failedResponseError dp t r d =
        APIError 503 (resp_statusText r) m (Some d) (Some (resp_headers r))"
      using failedResponseError_503 [OF assms(1)] by blast
    then show ?thesis
      using makeRequest_not_ok [OF assms(2) nok, of dp t] False
      by (simp add: makeRequestCatch_def isRetryableError_def RETRYABLE_STATUS_CODES_def)
  qed
qed

lemma fn_result_makeRequestEnv:
  "fn_result (makeRequestEnv h) k t = makeRequest (http_date_parse h) t (fetched h k)"
  by (simp add: makeRequestEnv_def)

lemma request_loop_503_step:
  assumes "int attempt < maxRetries cfg"
    and "fetched h (rs_calls s) = Inr r" and "resp_status r = 503" and "readBody r = Inr d"
  shows "\<exists>e s'. retryLoop (makeRequestEnv h) cfg isRetryableError attempt lastError s =
                 retryLoop (makeRequestEnv h) cfg isRetryableError (attempt + 1) (Some e) s'
               \<and> rs_calls s' = rs_calls s + 1"
proof -
  let ?t = "rs_now s + int (fn_ms (makeRequestEnv h) (rs_calls s))"
  obtain e where e: "makeRequest (http_date_parse h) ?t (Inr r) = Inl e"
      "isRetryableError e = Inr True" "e \<noteq> JSUndefined"
    using makeRequest_503 [OF assms(3,4)] by blast
  obtain delay where delay:
      "retryDelayFor (date_parse (makeRequestEnv h)) ?t cfg attempt e = Inr delay"
    using retryDelayFor_defined [OF e(3)] by blast
  have res: "fn_result (makeRequestEnv h) (rs_calls s) ?t = Inl e"
    using e(1) assms(2) by (simp add: fn_result_makeRequestEnv)
  show ?thesis
    using retryLoop_retry [where isRetryable = isRetryableError, OF assms(1) res e(2) delay, of lastError]
    by (metis rs_calls_sleep retry_state.select_convs(2) retry_state.surjective
          retry_state.update_convs(1,2))
qed

lemma request_loop_503_last:
  assumes "int attempt = maxRetries cfg"
    and "fetched h (rs_calls s) = Inr r" and "resp_status r = 503" and "readBody r = Inr d"
  shows "rs_calls (snd (retryLoop (makeRequestEnv h) cfg isRetryableError attempt lastError s))
           = rs_calls s + 1
       \<and> (\<exists>e. fst (retryLoop (makeRequestEnv h) cfg isRetryableError attempt lastError s) = Inl e
              \<and> isRetryableError e = Inr True
              \<and> (d \<noteq> JNull \<longrightarrow>
                    (\<exists>m. e = APIError 503 (resp_statusText r) m (Some d) (Some (resp_headers r)))))"
proof -
  let ?t = "rs_now s + int (fn_ms (makeRequestEnv h) (rs_calls s))"
  obtain e where e: "makeRequest (http_date_parse h) ?t (Inr r) = Inl e"
      "isRetryableError e = Inr True"
      "d \<noteq> JNull \<longrightarrow> (\<exists>m. e = APIError 503 (resp_statusText r) m (Some d) (Some (resp_headers r)))"
    using makeRequest_503 [OF assms(3,4)] by blast
  have res: "fn_result (makeRequestEnv h) (rs_calls s) ?t = Inl e"
    using e(1) assms(2) by (simp add: fn_result_makeRequestEnv)
  have le: "int attempt \<le> maxRetries cfg" using assms(1) by simp
  have "retryLoop (makeRequestEnv h) cfg isRetryableError attempt lastError s =
          (Inl e, s\<lparr> rs_now := ?t, rs_calls := rs_calls s + 1 \<rparr>)"
    using retryLoop_rethrow [where isRetryable = isRetryableError, OF le res e(2), of lastError] assms(1) by simp
  then show ?thesis using e(2,3) by simp
qed

lemma request_loop_ok:
  assumes "int attempt \<le> maxRetries cfg"
    and "fetched h (rs_calls s) = Inr r" and "response_ok r" and "readBody r = Inr d"
  shows "retryLoop (makeRequestEnv h) cfg isRetryableError attempt lastError s =
           (Inr d, s\<lparr> rs_now := rs_now s + int (fn_ms (makeRequestEnv h) (rs_calls s)),
                      rs_calls := rs_calls s + 1 \<rparr>)"
proof -
  have "fn_result (makeRequestEnv h) (rs_calls s)
          (rs_now s + int (fn_ms (makeRequestEnv h) (rs_calls s))) = Inr d"
    using assms(2) makeRequest_ok [OF assms(4,3)] by (simp add: fn_result_makeRequestEnv)
  then show ?thesis using retryLoop_success [OF assms(1)] by simp
qed

lemma readBody_mockResponse: "readBody (mockResponse d st) = Inr d"
  by (simp add: readBody_def mockResponse_def)

subsection \<open>Retry sequences\<close>

lemma retryLoop_calls_bound:
  "rs_calls (snd (retryLoop env config isRetryable attempt lastError s))
     \<le> rs_calls s + nat (maxRetries config + 1 - int attempt)"
proof (induction env config isRetryable attempt lastError s rule: retryLoop.induct)
  case (1 env config isRetryable attempt lastError s)
  let ?s1 = "s\<lparr> rs_now := rs_now s + int (fn_ms env (rs_calls s)), rs_calls := rs_calls s + 1 \<rparr>"
  show ?case
  proof (cases "int attempt \<le> maxRetries config")
    case False
    then show ?thesis by (subst retryLoop.simps) simp
  next
    case True
    then have room: "1 \<le> nat (maxRetries config + 1 - int attempt)" by simp
    show ?thesis
    proof (cases "fn_result env (rs_calls s) (rs_now ?s1)")
      case (Inr v)
      then show ?thesis using True room by (subst retryLoop.simps) (simp add: Let_def)
    next
      case (Inl e)
      show ?thesis
      proof (cases "isRetryable e")
        case thrown: (Inl t)
        then show ?thesis using True room Inl by (subst retryLoop.simps) (simp add: Let_def)
      next
        case (Inr retryable)
        show ?thesis
        proof (cases "\<not> retryable \<or> int attempt = maxRetries config")
          case stop: True
          then show ?thesis
            using True room Inl Inr by (subst retryLoop.simps) (auto simp add: Let_def)
        next
          case go: False
          show ?thesis
          proof (cases "retryDelayFor (date_parse env) (rs_now ?s1) config attempt e")
            case fails: (Inl t)
            then show ?thesis
              using True room Inl Inr go by (subst retryLoop.simps) (simp add: Let_def)
          next
            case delay: (Inr d)
            have ih: "rs_calls (snd (retryLoop env config isRetryable (attempt + 1) (Some e)
                                       (sleep env d ?s1)))
                  \<le> rs_calls (sleep env d ?s1) + nat (maxRetries config + 1 - int (attempt + 1))"
              using "1.IH" [OF True refl refl Inl Inr go delay] by simp
            have unf: "retryLoop env config isRetryable attempt lastError s =
                retryLoop env config isRetryable (attempt + 1) (Some e) (sleep env d ?s1)"
              using True Inl Inr go delay by (subst retryLoop.simps) (simp add: Let_def)
            show ?thesis using ih True go unfolding unf by (simp add: sleep_def)
          qed
        qed
      qed
    qed
  qed
qed

lemma request_attempts_bound:
  assumes "0 \<le> client_maxRetries client"
  shows "rs_calls (snd (request client h s)) \<le> rs_calls s + nat (client_maxRetries client) + 1"
  using retryLoop_calls_bound [of "makeRequestEnv h"
          "\<lparr> maxRetries = client_maxRetries client, retryDelay = client_retryDelay client,
             timeout = client_timeout client \<rparr>" isRetryableError 0 None s] assms
  by (simp add: request_def retryWithBackoff_def)

lemma request_two_503s_then:
  assumes "client_maxRetries client = 2"
    and "fetched h (rs_calls s) = Inr r0" and "resp_status r0 = 503" and "readBody r0 = Inr d0"
    and "fetched h (rs_calls s + 1) = Inr r1" and "resp_status r1 = 503" and "readBody r1 = Inr d1"
    and "fetched h (rs_calls s + 2) = Inr r2" and "readBody r2 = Inr d2"
  shows "(resp_status r2 = 503 \<longrightarrow>
            rs_calls (snd (request client h s)) = rs_calls s + 3
          \<and> (\<exists>e. fst (request client h s) = Inl e \<and> isRetryableError e = Inr True
                 \<and> (d2 \<noteq> JNull \<longrightarrow>
                      (\<exists>m. e = APIError 503 (resp_statusText r2) m (Some d2) (Some (resp_headers r2))))))
       \<and> (resp_status r2 = 200 \<longrightarrow>
            rs_calls (snd (request client h s)) = rs_calls s + 3
          \<and> fst (request client h s) = Inr d2)"
proof -
  define cfg where "cfg = \<lparr> maxRetries = client_maxRetries client,
    retryDelay = client_retryDelay client, timeout = client_timeout client \<rparr>"
  have mr: "maxRetries cfg = 2" using assms(1) by (simp add: cfg_def)
  have req: "request client h s = retryLoop (makeRequestEnv h) cfg isRetryableError 0 None s"
    by (simp add: request_def retryWithBackoff_def cfg_def)
  have a0: "int 0 < maxRetries cfg" using mr by simp
  obtain e0 s1 where s1:
      "retryLoop (makeRequestEnv h) cfg isRetryableError 0 None s =
         retryLoop (makeRequestEnv h) cfg isRetryableError (0 + 1) (Some e0) s1"
      "rs_calls s1 = rs_calls s + 1"
    using request_loop_503_step [OF a0 assms(2,3,4), of None] by blast
  have a1: "int (0 + 1) < maxRetries cfg" using mr by simp
  have f1: "fetched h (rs_calls s1) = Inr r1" using assms(5) s1(2) by simp
  obtain e1 s2 where s2:
      "retryLoop (makeRequestEnv h) cfg isRetryableError (0 + 1) (Some e0) s1 =
         retryLoop (makeRequestEnv h) cfg isRetryableError (0 + 1 + 1) (Some e1) s2"
      "rs_calls s2 = rs_calls s1 + 1"
    using request_loop_503_step [OF a1 f1 assms(6,7), of "Some e0"] by blast
  have a2: "int (0 + 1 + 1) = maxRetries cfg" using mr by simp
  have f2: "fetched h (rs_calls s2) = Inr r2" using assms(8) s1(2) s2(2) by simp
  have c2: "rs_calls s2 + 1 = rs_calls s + 3" using s1(2) s2(2) by simp
  have third: "request client h s =
      retryLoop (makeRequestEnv h) cfg isRetryableError (0 + 1 + 1) (Some e1) s2"
    using req s1(1) s2(1) by simp
  have fail: ?thesis if st: "resp_status r2 = 503"
    using request_loop_503_last [OF a2 f2 st assms(9), of "Some e1"] third c2 st by simp
  have ok: ?thesis if st: "resp_status r2 = 200"
  proof -
    have "response_ok r2" using st by (simp add: response_ok_def)
    then show ?thesis
      using request_loop_ok [OF eq_refl [OF a2] f2 _ assms(9), of "Some e1"] third c2 st by simp
  qed
  show ?thesis using fail ok by (cases "resp_status r2 = 503") auto
qed

text \<open>
  C2 (as amended): with \<open>maxRetries = 2\<close> the executor makes at most three attempts,
  whatever the responses are. When the first three responses are HTTP 503 (bodies read),
  it performs exactly 3 attempts and rejects with the error of the third one, a retryable
  error that is the \<open>APIError\<close> of status 503 whenever that body is not \<^verbatim>\<open>null\<close>; no
  fourth request is made. When only the first two are 503 and the third is HTTP 200, it
  performs exactly 3 attempts and returns the payload of the 200.
\<close>

theorem request_maxRetries_2_after_503s:
  assumes "client_maxRetries client = 2"
  shows "rs_calls (snd (request client h s)) \<le> rs_calls s + 3
     \<and> (fetched h (rs_calls s) = Inr r0 \<longrightarrow> resp_status r0 = 503 \<longrightarrow> readBody r0 = Inr d0 \<longrightarrow>
        fetched h (rs_calls s + 1) = Inr r1 \<longrightarrow> resp_status r1 = 503 \<longrightarrow> readBody r1 = Inr d1 \<longrightarrow>
        fetched h (rs_calls s + 2) = Inr r2 \<longrightarrow> readBody r2 = Inr d2 \<longrightarrow>
          (resp_status r2 = 503 \<longrightarrow>
             rs_calls (snd (request client h s)) = rs_calls s + 3
           \<and> (\<exists>e. fst (request client h s) = Inl e \<and> isRetryableError e = Inr True
                  \<and> (d2 \<noteq> JNull \<longrightarrow>
                       (\<exists>m. e = APIError 503 (resp_statusText r2) m (Some d2)
                                  (Some (resp_headers r2))))))
        \<and> (resp_status r2 = 200 \<longrightarrow>
             rs_calls (snd (request client h s)) = rs_calls s + 3
           \<and> fst (request client h s) = Inr d2))"
proof (intro conjI impI)
  show "rs_calls (snd (request client h s)) \<le> rs_calls s + 3"
    using request_attempts_bound [of client h s] assms by simp
next
  assume h: "fetched h (rs_calls s) = Inr r0" "resp_status r0 = 503" "readBody r0 = Inr d0"
    "fetched h (rs_calls s + 1) = Inr r1" "resp_status r1 = 503" "readBody r1 = Inr d1"
    "fetched h (rs_calls s + 2) = Inr r2" "readBody r2 = Inr d2"
  note scen = request_two_503s_then [OF assms h]
  {
    assume "resp_status r2 = 503"
    with scen show "rs_calls (snd (request client h s)) = rs_calls s + 3" by blast
  next
    assume "resp_status r2 = 503"
    with scen show "\<exists>e. fst (request client h s) = Inl e \<and> isRetryableError e = Inr True
                  \<and> (d2 \<noteq> JNull \<longrightarrow>
                       (\<exists>m. e = APIError 503 (resp_statusText r2) m (Some d2)
                                  (Some (resp_headers r2))))" by blast
  next
    assume "resp_status r2 = 200"
    with scen show "rs_calls (snd (request client h s)) = rs_calls s + 3" by blast
  next
    assume "resp_status r2 = 200"
    with scen show "fst (request client h s) = Inr d2" by blast
  }
qed

theorem request_maxRetries_2_after_503s_witness:
  "rs_calls (snd (request (testClient 2) three503sThen200 retryStart))
     \<le> rs_calls retryStart + 3
   \<and> rs_calls (snd (request (testClient 2) three503sThen200 retryStart)) = 3
   \<and> (\<exists>m. fst (request (testClient 2) three503sThen200 retryStart) =
          Inl (APIError 503 ''Error'' m
                 (Some (JObj [(''success'', JBool False), (''message'', JStr ''Service unavailable'')]))
                 (Some [(''content-type'', ''application/json'')])))
   \<and> rs_calls (snd (request (testClient 2) two503sThen200 retryStart)) = 3
   \<and> fst (request (testClient 2) two503sThen200 retryStart) = Inr (JArr [])"
proof -
  let ?d = "JObj [(''success'', JBool False), (''message'', JStr ''Service unavailable'')]"
  have c: "client_maxRetries (testClient 2) = 2" by (simp add: testClient_def)
  have st: "resp_status e503 = 503"
    by (simp add: e503_def mockErrorResponse_def mockResponse_def)
  have rb: "readBody e503 = Inr ?d"
    by (simp add: e503_def mockErrorResponse_def readBody_mockResponse)
  have shape: "resp_statusText e503 = ''Error''"
      "resp_headers e503 = [(''content-type'', ''application/json'')]"
    by (simp_all add: e503_def mockErrorResponse_def mockResponse_def)
  have a0: "fetched three503sThen200 (rs_calls retryStart) = Inr e503"
    and a1: "fetched three503sThen200 (rs_calls retryStart + 1) = Inr e503"
    and a2: "fetched three503sThen200 (rs_calls retryStart + 2) = Inr e503"
    by (simp_all add: three503sThen200_def serverSequence_def retryStart_def)
  have b0: "fetched two503sThen200 (rs_calls retryStart) = Inr e503"
    and b1: "fetched two503sThen200 (rs_calls retryStart + 1) = Inr e503"
    and b2: "fetched two503sThen200 (rs_calls retryStart + 2) = Inr (mockResponse (JArr []) 200)"
    by (simp_all add: two503sThen200_def serverSequence_def retryStart_def)
  have ok: "resp_status (mockResponse (JArr []) 200) = 200" by (simp add: mockResponse_def)
  have z: "rs_calls retryStart = 0" by (simp add: retryStart_def)
  note bound = request_maxRetries_2_after_503s
                 [OF c, THEN conjunct1, of three503sThen200 retryStart]
  note fail = request_maxRetries_2_after_503s
                [OF c, THEN conjunct2, rule_format, OF a0 st rb a1 st rb a2 rb]
  note pass = request_maxRetries_2_after_503s
                [OF c, THEN conjunct2, rule_format, OF b0 st rb b1 st rb b2 readBody_mockResponse]
  from fail st have "rs_calls (snd (request (testClient 2) three503sThen200 retryStart)) = 3"
    using z by simp
  moreover from fail st shape
  have "\<exists>m. fst (request (testClient 2) three503sThen200 retryStart) =
          Inl (APIError 503 ''Error'' m (Some ?d) (Some [(''content-type'', ''application/json'')]))"
    by auto
  moreover from pass ok
  have "rs_calls (snd (request (testClient 2) two503sThen200 retryStart)) = 3
      \<and> fst (request (testClient 2) two503sThen200 retryStart) = Inr (JArr [])"
    using z by simp
  ultimately show ?thesis using bound by blast
qed

text \<open>
  C2 as stated fails: against three 503 responses followed by a 200, \<open>maxRetries = 2\<close>
  ends after the third attempt with the 503 error, not with the 200 payload.
\<close>

theorem request_maxRetries_2_counterexample:
  "fst (request (testClient 2) three503sThen200 retryStart) \<noteq> Inr (JArr [])
   \<and> request (testClient 2) three503sThen200 retryStart
     = (Inl (APIError 503 ''Error'' (JStr ''Service unavailable'')
               (Some (JObj [(''success'', JBool False), (''message'', JStr ''Service unavailable'')]))
               (Some [(''content-type'', ''application/json'')])),
        \<lparr> rs_now = 3015, rs_calls = 3, rs_sleeps = [Finite 1000, Finite 2000] \<rparr>)"
proof -
  have run: "request (testClient 2) three503sThen200 retryStart
     = (Inl (APIError 503 ''Error'' (JStr ''Service unavailable'')
               (Some (JObj [(''success'', JBool False), (''message'', JStr ''Service unavailable'')]))
               (Some [(''content-type'', ''application/json'')])),
        \<lparr> rs_now = 3015, rs_calls = 3, rs_sleeps = [Finite 1000, Finite 2000] \<rparr>)"
    by code_simp
  show ?thesis unfolding run by simp
qed

subsection \<open>Retryable and non-retryable errors\<close>

lemma failedResponseError_client_errors:
  assumes "resp_status r \<in> {400, 401, 403, 422}" and "getProp data ''message'' = Inr m"
    and "getProp data ''errors'' = Inr es"
  shows "failedResponseError dp now r data =
           (if resp_status r = 401 \<or> resp_status r = 403
            then AuthenticationError (orElse m (JStr ''Authentication failed''))
            else ValidationError (orElse m (JStr ''Validation failed'')) es)"
  using assms by (auto simp add: failedResponseError_def)

lemma getProp_total:
  assumes "data \<noteq> JNull"
  shows "\<exists>m es. getProp data ''message'' = Inr m \<and> getProp data ''errors'' = Inr es"
  using assms by (cases data) simp_all

lemma isRetryableError_nullishTypeError:
  "isRetryableError (nullishTypeError what prop) = Inr False"
  by (simp add: isRetryableError_def nullishTypeError_def)

lemma isRetryableError_Validation: "isRetryableError (ValidationError m es) = Inr False"
  by (simp add: isRetryableError_def RETRYABLE_ERROR_CODES_def)

lemma isRetryableError_Authentication: "isRetryableError (AuthenticationError m) = Inr False"
  by (simp add: isRetryableError_def RETRYABLE_ERROR_CODES_def)

lemma makeRequest_retryable_status:
  assumes "resp_status r \<in> set RETRYABLE_STATUS_CODES" and "readBody r = Inr data"
  shows "\<exists>e. makeRequest dp now (Inr r) = Inl e \<and> isRetryableError e = Inr True"
proof -
  have nok: "\<not> response_ok r" using assms(1) by (auto simp: response_ok_def RETRYABLE_STATUS_CODES_def)
  have mk: "makeRequest dp now (Inr r) = Inl (makeRequestCatch (failedResponseError dp now r data))"
    using makeRequest_not_ok [OF assms(2) nok] .
  show ?thesis
  proof (cases "data = JNull")
    case True
    then show ?thesis using mk
      by (simp add: failedResponseError_null makeRequestCatch_null isRetryableError_def)
  next
    case False
    then obtain m where m: "getProp data ''message'' = Inr m" using getProp_not_null by blast
    show ?thesis
    proof (cases "resp_status r = 429")
      case True
      then show ?thesis using mk m
        by (simp add: failedResponseError_def Let_def makeRequestCatch_def isRetryableError_def)
    next
      case False
      then have "failedResponseError dp now r data =
          APIError (resp_status r) (resp_statusText r)
            (orElse m (JStr (''API request failed with status '' @ showInt (resp_status r))))
            (Some data) (Some (resp_headers r))"
        using assms(1) m by (auto simp add: failedResponseError_def RETRYABLE_STATUS_CODES_def)
      then show ?thesis using mk assms(1)
        by (auto simp add: makeRequestCatch_def isRetryableError_def RETRYABLE_STATUS_CODES_def)
    qed
  qed
qed

text \<open>
  Where \<^verbatim>\<open>isRetryableError\<close> is as specified: an error value whose HTTP status is one of
  408, 429, 500, 502, 503, 504 is retryable, and so is what \<^verbatim>\<open>makeRequest\<close> rejects with
  for a response with such a status; every \<open>ValidationError\<close> and \<open>AuthenticationError\<close>
  is non-retryable, and for a 400, 401, 403 or 422 whose body is read and is not
  \<^verbatim>\<open>null\<close>, \<^verbatim>\<open>makeRequest\<close> rejects with one of these.
\<close>

lemma isRetryableError_on_classified_errors:
  "(error_status e = Some s \<longrightarrow> s \<in> {408, 429, 500, 502, 503, 504} \<longrightarrow>
      isRetryableError e = Inr True)
   \<and> (resp_status r \<in> {408, 429, 500, 502, 503, 504} \<longrightarrow> readBody r = Inr data \<longrightarrow>
        (\<exists>x. makeRequest dp now (Inr r) = Inl x \<and> isRetryableError x = Inr True))
   \<and> (resp_status r \<in> {400, 401, 403, 422} \<longrightarrow>
        isRetryableError (failedResponseError dp now r data) = Inr False
        \<and> (data \<noteq> JNull \<longrightarrow> readBody r = Inr data \<longrightarrow>
             makeRequest dp now (Inr r) = Inl (failedResponseError dp now r data)
             \<and> (if resp_status r = 401 \<or> resp_status r = 403
                 then instanceofAuthenticationError (failedResponseError dp now r data)
                 else instanceofValidationError (failedResponseError dp now r data))))
   \<and> isRetryableError (ValidationError m es) = Inr False
   \<and> isRetryableError (AuthenticationError m) = Inr False"
proof -
  have one: "isRetryableError e = Inr True"
    if "error_status e = Some s" "s \<in> {408, 429, 500, 502, 503, 504}"
    using that isRetryableError_status [of e s] by (simp add: RETRYABLE_STATUS_CODES_def)
  have two: "\<exists>x. makeRequest dp now (Inr r) = Inl x \<and> isRetryableError x = Inr True"
    if "resp_status r \<in> {408, 429, 500, 502, 503, 504}" "readBody r = Inr data"
    using that makeRequest_retryable_status [of r data dp now]
    by (simp add: RETRYABLE_STATUS_CODES_def)
  have three: "isRetryableError (failedResponseError dp now r data) = Inr False"
    if st: "resp_status r \<in> {400, 401, 403, 422}"
  proof (cases "data = JNull")
    case True
    then show ?thesis
      by (simp add: failedResponseError_null isRetryableError_nullishTypeError)
  next
    case False
    then obtain m' es' where "getProp data ''message'' = Inr m'" "getProp data ''errors'' = Inr es'"
      using getProp_total by blast
    then show ?thesis
      using failedResponseError_client_errors [OF st, of data m' es' dp now]
      by (simp add: isRetryableError_Validation isRetryableError_Authentication)
  qed
  have four: "makeRequest dp now (Inr r) = Inl (failedResponseError dp now r data)
      \<and> (if resp_status r = 401 \<or> resp_status r = 403
          then instanceofAuthenticationError (failedResponseError dp now r data)
          else instanceofValidationError (failedResponseError dp now r data))"
    if st: "resp_status r \<in> {400, 401, 403, 422}" and nn: "data \<noteq> JNull"
      and rb: "readBody r = Inr data"
  proof -
    obtain m' es' where "getProp data ''message'' = Inr m'" "getProp data ''errors'' = Inr es'"
      using getProp_total [OF nn] by blast
    then have cls: "failedResponseError dp now r data =
           (if resp_status r = 401 \<or> resp_status r = 403
            then AuthenticationError (orElse m' (JStr ''Authentication failed''))
            else ValidationError (orElse m' (JStr ''Validation failed'')) es')"
      using failedResponseError_client_errors [OF st] by blast
    have nok: "\<not> response_ok r" using st by (auto simp: response_ok_def)
    show ?thesis
      using makeRequest_not_ok [OF rb nok, of dp now] cls by (simp add: makeRequestCatch_def)
  qed
  show ?thesis
    using one two three four isRetryableError_Validation isRetryableError_Authentication
    by blast
qed

text \<open>
  C3: the error that the request executor produces for a response with status 400, 401,
  403 or 422 should be a Validation or Authentication error, on which
  \<^verbatim>\<open>isRetryableError\<close> returns false. For a 401 whose JSON body is \<^verbatim>\<open>null\<close> and for a 422
  whose body does not parse, \<^verbatim>\<open>makeRequest\<close> rejects with a \<open>NetworkError\<close> instead,
  \<^verbatim>\<open>isRetryableError\<close> returns true on it, and the executor retries the request.
\<close>

theorem classified_client_error_retryable:
  "makeRequest noDate 5 (Inr e401NullBody)
     = Inl (NetworkError
         (JStr (''Network request failed: '' @ jsMessage (nullishTypeError ''null'' ''message'')))
         (Some (nullishTypeError ''null'' ''message'')))
   \<and> isRetryableError (NetworkError
         (JStr (''Network request failed: '' @ jsMessage (nullishTypeError ''null'' ''message'')))
         (Some (nullishTypeError ''null'' ''message''))) = Inr True
   \<and> makeRequest noDate 5 (Inr e422EmptyBody)
     = Inl (NetworkError (JStr ''Request failed: Unexpected end of JSON input'')
         (Some (JSError ''SyntaxError'' ''Unexpected end of JSON input'' None None None)))
   \<and> isRetryableError (NetworkError (JStr ''Request failed: Unexpected end of JSON input'')
         (Some (JSError ''SyntaxError'' ''Unexpected end of JSON input'' None None None)))
       = Inr True
   \<and> rs_calls (snd (request (testClient 3)
         (serverSequence [e401NullBody] (mockResponse (JArr []) 200)) retryStart)) = 2"
proof -
  have a: "makeRequest noDate 5 (Inr e401NullBody)
     = Inl (NetworkError
         (JStr (''Network request failed: '' @ jsMessage (nullishTypeError ''null'' ''message'')))
         (Some (nullishTypeError ''null'' ''message'')))"
    by code_simp
  have b: "makeRequest noDate 5 (Inr e422EmptyBody)
     = Inl (NetworkError (JStr ''Request failed: Unexpected end of JSON input'')
         (Some (JSError ''SyntaxError'' ''Unexpected end of JSON input'' None None None)))"
    by code_simp
  have c: "isRetryableError (NetworkError m cause) = Inr True" for m cause
    by (simp add: isRetryableError_def)
  have d: "rs_calls (snd (request (testClient 3)
         (serverSequence [e401NullBody] (mockResponse (JArr []) 200)) retryStart)) = 2"
    by code_simp
  show ?thesis using a b c d by simp
qed

subsection \<open>The Retry-After header\<close>

text \<open>
  What \<^verbatim>\<open>parseRetryAfter\<close> does on the inputs the specification names: \<open>"5"\<close> gives
  5000 ms, an absent or empty header gives 0, a string that is neither a number nor a
  date gives 0, a date in the past gives 0, and a string with no leading integer never
  gives a negative delay. A string with a leading integer gives that integer times 1000.
\<close>

lemma parseInt_5: "parseInt ''5'' = Some 5"
  by (simp add: parseInt_def isStrWhiteSpaceChar_def digitValue_def decimalValue_def)

lemma parseInt_http_date: "parseInt ''Wed, 21 Oct 2015 07:28:00 GMT'' = None"
  by (simp add: parseInt_def isStrWhiteSpaceChar_def digitValue_def)

lemma parseRetryAfter_specified_cases:
  "parseRetryAfter dp now (Some ''5'') = 5000
   \<and> parseRetryAfter dp now None = 0
   \<and> parseRetryAfter dp now (Some []) = 0
   \<and> (parseInt s = None \<longrightarrow> dp s = None \<longrightarrow> parseRetryAfter dp now (Some s) = 0)
   \<and> (parseInt s = None \<longrightarrow> dp s = Some t \<longrightarrow> t \<le> now \<longrightarrow> parseRetryAfter dp now (Some s) = 0)
   \<and> (parseInt s = None \<longrightarrow> 0 \<le> parseRetryAfter dp now (Some s))
   \<and> (parseInt s = Some n \<longrightarrow> s \<noteq> [] \<longrightarrow> parseRetryAfter dp now (Some s) = n * 1000)"
  by (simp add: parseRetryAfter_def parseInt_5 split: option.splits)

text \<open>
  C5: the result of \<^verbatim>\<open>parseRetryAfter\<close> should never be negative. The date branch clamps
  at zero with \<^verbatim>\<open>Math.max(0, ...)\<close>; the seconds branch does not, so the header value
  \<open>"-5"\<close> yields \<open>-5000\<close> milliseconds whatever the date parser and the clock are.
\<close>

theorem parseRetryAfter_negative_seconds:
  "parseRetryAfter dp now (Some ''-5'') = - 5000 \<and> parseRetryAfter dp now (Some ''-5'') < 0"
  by (simp add: parseRetryAfter_def parseInt_def isStrWhiteSpaceChar_def digitValue_def
        decimalValue_def)

subsection \<open>A 400 response\<close>

text \<open>
  When the body of a 400 or 422 response is read and is not \<^verbatim>\<open>null\<close>, the executor makes
  one attempt and rejects with the \<open>ValidationError\<close> that carries \<^verbatim>\<open>data.errors\<close>.
\<close>

lemma request_400_single_attempt:
  assumes "0 \<le> client_maxRetries client"
    and "fetched h (rs_calls s) = Inr r" and "resp_status r = 400 \<or> resp_status r = 422"
    and "readBody r = Inr data"
    and "getProp data ''message'' = Inr m" and "getProp data ''errors'' = Inr es"
  shows "request client h s =
           (Inl (ValidationError (orElse m (JStr ''Validation failed'')) es),
            s\<lparr> rs_now := rs_now s + int (fetch_ms h (rs_calls s)), rs_calls := rs_calls s + 1 \<rparr>)"
proof -
  let ?cfg = "\<lparr> maxRetries = client_maxRetries client,
    retryDelay = client_retryDelay client, timeout = client_timeout client \<rparr>"
  let ?e = "ValidationError (orElse m (JStr ''Validation failed'')) es"
  have st: "resp_status r \<in> {400, 401, 403, 422}" using assms(3) by auto
  have nok: "\<not> response_ok r" using assms(3) by (auto simp: response_ok_def)
  have cls: "failedResponseError (http_date_parse h) t r data = ?e" for t
    using failedResponseError_client_errors [OF st assms(5,6)] assms(3) by auto
  have res: "fn_result (makeRequestEnv h) (rs_calls s)
               (rs_now s + int (fn_ms (makeRequestEnv h) (rs_calls s))) = Inl ?e"
    using makeRequest_not_ok [OF assms(4) nok] assms(2) cls
    by (simp add: fn_result_makeRequestEnv makeRequestCatch_def)
  have le: "int 0 \<le> maxRetries ?cfg" using assms(1) by simp
  have "retryLoop (makeRequestEnv h) ?cfg isRetryableError 0 None s =
          (Inl ?e, s\<lparr> rs_now := rs_now s + int (fn_ms (makeRequestEnv h) (rs_calls s)),
                      rs_calls := rs_calls s + 1 \<rparr>)"
    using retryLoop_rethrow [where isRetryable = isRetryableError, OF le res
            isRetryableError_Validation] by simp
  then show ?thesis
    by (simp add: request_def retryWithBackoff_def makeRequestEnv_def)
qed

text \<open>
  C6: a first attempt that yields HTTP 400 should end the sequence after one attempt with
  a \<open>ValidationError\<close>. When the body of the 400 is the JSON value \<^verbatim>\<open>null\<close>, or fails to
  parse as JSON, \<^verbatim>\<open>makeRequest\<close> throws inside its own \<^verbatim>\<open>try\<close> before the
  \<open>ValidationError\<close> is built, the \<^verbatim>\<open>catch\<close> block wraps that into a \<open>NetworkError\<close>,
  and the executor retries: with \<open>maxRetries = 3\<close> and a 200 as the second response it
  makes two attempts and returns a success.
\<close>

theorem request_400_unreadable_body_retried:
  "request (testClient 3) (serverSequence [e400NullBody] (mockResponse (JArr []) 200)) retryStart
     = (Inr (JArr []), \<lparr> rs_now = 1010, rs_calls = 2, rs_sleeps = [Finite 1000] \<rparr>)
   \<and> request (testClient 3) (serverSequence [e400EmptyBody] (mockResponse (JArr []) 200)) retryStart
     = (Inr (JArr []), \<lparr> rs_now = 1010, rs_calls = 2, rs_sleeps = [Finite 1000] \<rparr>)
   \<and> makeRequest noDate 5 (Inr e400NullBody)
     = Inl (NetworkError
         (JStr (''Network request failed: '' @ jsMessage (nullishTypeError ''null'' ''message'')))
         (Some (nullishTypeError ''null'' ''message'')))
   \<and> makeRequest noDate 5 (Inr e400EmptyBody)
     = Inl (NetworkError (JStr ''Request failed: Unexpected end of JSON input'')
         (Some (JSError ''SyntaxError'' ''Unexpected end of JSON input'' None None None)))"
proof -
  have a: "request (testClient 3) (serverSequence [e400NullBody] (mockResponse (JArr []) 200)) retryStart
     = (Inr (JArr []), \<lparr> rs_now = 1010, rs_calls = 2, rs_sleeps = [Finite 1000] \<rparr>)"
    by code_simp
  have b: "request (testClient 3) (serverSequence [e400EmptyBody] (mockResponse (JArr []) 200)) retryStart
     = (Inr (JArr []), \<lparr> rs_now = 1010, rs_calls = 2, rs_sleeps = [Finite 1000] \<rparr>)"
    by code_simp
  have c: "makeRequest noDate 5 (Inr e400NullBody)
     = Inl (NetworkError
         (JStr (''Network request failed: '' @ jsMessage (nullishTypeError ''null'' ''message'')))
         (Some (nullishTypeError ''null'' ''message'')))"
    by code_simp
  have d: "makeRequest noDate 5 (Inr e400EmptyBody)
     = Inl (NetworkError (JStr ''Request failed: Unexpected end of JSON input'')
         (Some (JSError ''SyntaxError'' ''Unexpected end of JSON input'' None None None)))"
    by code_simp
  show ?thesis using a b c d by blast
qed

subsection \<open>Zero values in the configuration\<close>

lemma retryLoop_single_attempt:
  assumes "maxRetries config = 0"
  shows "rs_calls (snd (retryLoop env config isRetryable 0 lastError s)) = rs_calls s + 1"
  using assms
  by (subst retryLoop.simps) (simp add: Let_def split: sum.splits)

lemma waitForSeparation_interval_zero:
  "waitForSeparation env hash (options\<lparr> po_interval := Some 0 \<rparr>) s =
   waitForSeparation env hash (options\<lparr> po_interval := Some 5000 \<rparr>) s"
  by (simp add: waitForSeparation_def numberOr_def DEFAULT_POLL_INTERVAL_def)

lemma waitForSeparation_interval_zero_loop:
  "waitForSeparation env hash (options\<lparr> po_interval := Some 0 \<rparr>) s =
   waitLoop env hash (po_onProgress options) 5000
     (numberOr (po_maxDuration options) DEFAULT_POLL_MAX_DURATION) (ps_now s) s"
  by (simp add: waitForSeparation_def numberOr_def DEFAULT_POLL_INTERVAL_def)

lemma waitForSeparation_maxDuration_zero_loop:
  "waitForSeparation env hash (options\<lparr> po_maxDuration := Some 0 \<rparr>) s =
   waitLoop env hash (po_onProgress options)
     (numberOr (po_interval options) DEFAULT_POLL_INTERVAL) 1800000 (ps_now s) s"
  by (simp add: waitForSeparation_def numberOr_def DEFAULT_POLL_MAX_DURATION_def)

lemma waitForSeparation_maxDuration_zero:
  "waitForSeparation env hash (options\<lparr> po_maxDuration := Some 0 \<rparr>) s =
   waitForSeparation env hash (options\<lparr> po_maxDuration := Some 1800000 \<rparr>) s"
  by (simp add: waitForSeparation_def numberOr_def DEFAULT_POLL_MAX_DURATION_def)

text \<open>
  C10: for a configuration with an API token, an explicit \<open>maxRetries\<close> of 0 is kept
  (\<^verbatim>\<open>??\<close>), and every request of that client then makes exactly one attempt; an absent
  \<open>maxRetries\<close> becomes 3. An explicit 0 for \<open>timeout\<close> and \<open>retryDelay\<close> and an empty
  \<open>baseURL\<close> are replaced by 30000, 1000 and the production host (\<^verbatim>\<open>||\<close>). With a
  polling \<open>interval\<close> of 0 the polling loop runs with an interval of 5000, and with a
  \<open>maxDuration\<close> of 0 it runs with a deadline of 1800000 (\<^verbatim>\<open>||\<close>), the other option
  being taken as given.
\<close>

theorem zero_configuration_values:
  assumes "cfg_apiToken config \<noteq> []"
  shows "\<exists>client. newMVSEPClient config = Inr client
     \<and> (cfg_maxRetries config = Some 0 \<longrightarrow>
          client_maxRetries client = 0
          \<and> (\<forall>h s. rs_calls (snd (request client h s)) = rs_calls s + 1))
     \<and> (cfg_maxRetries config = None \<longrightarrow> client_maxRetries client = 3)
     \<and> (cfg_timeout config = Some 0 \<longrightarrow> client_timeout client = 30000)
     \<and> (cfg_retryDelay config = Some 0 \<longrightarrow> client_retryDelay client = 1000)
     \<and> (cfg_baseURL config = Some [] \<longrightarrow> baseURL client = ''https://mvsep.com'')
     \<and> waitForSeparation env hash (options\<lparr> po_interval := Some 0 \<rparr>) p =
         waitLoop env hash (po_onProgress options) 5000
           (numberOr (po_maxDuration options) DEFAULT_POLL_MAX_DURATION) (ps_now p) p
     \<and> waitForSeparation env hash (options\<lparr> po_maxDuration := Some 0 \<rparr>) p =
         waitLoop env hash (po_onProgress options)
           (numberOr (po_interval options) DEFAULT_POLL_INTERVAL) 1800000 (ps_now p) p
     \<and> waitForSeparation env hash (options\<lparr> po_interval := Some 0 \<rparr>) p =
         waitForSeparation env hash (options\<lparr> po_interval := Some 5000 \<rparr>) p
     \<and> waitForSeparation env hash (options\<lparr> po_maxDuration := Some 0 \<rparr>) p =
         waitForSeparation env hash (options\<lparr> po_maxDuration := Some 1800000 \<rparr>) p"
proof -
  obtain client where c: "newMVSEPClient config = Inr client"
      "client_maxRetries client = nullishOr (cfg_maxRetries config) DEFAULT_MAX_RETRIES"
      "client_timeout client = numberOr (cfg_timeout config) DEFAULT_TIMEOUT"
      "client_retryDelay client = numberOr (cfg_retryDelay config) DEFAULT_RETRY_DELAY"
      "baseURL client = stringOr (cfg_baseURL config) DEFAULT_BASE_URL"
    using assms by (simp add: newMVSEPClient_def)
  have one: "rs_calls (snd (request client h s)) = rs_calls s + 1"
    if "client_maxRetries client = 0" for h s
    using that by (simp add: request_def retryWithBackoff_def retryLoop_single_attempt)
  have m0: "cfg_maxRetries config = Some 0 \<longrightarrow>
          client_maxRetries client = 0
          \<and> (\<forall>h s. rs_calls (snd (request client h s)) = rs_calls s + 1)"
    using c(2) one by (simp add: nullishOr_def)
  have m1: "cfg_maxRetries config = None \<longrightarrow> client_maxRetries client = 3"
    using c(2) by (simp add: nullishOr_def DEFAULT_MAX_RETRIES_def)
  have m2: "cfg_timeout config = Some 0 \<longrightarrow> client_timeout client = 30000"
    using c(3) by (simp add: numberOr_def DEFAULT_TIMEOUT_def)
  have m3: "cfg_retryDelay config = Some 0 \<longrightarrow> client_retryDelay client = 1000"
    using c(4) by (simp add: numberOr_def DEFAULT_RETRY_DELAY_def)
  have m4: "cfg_baseURL config = Some [] \<longrightarrow> baseURL client = ''https://mvsep.com''"
    using c(5) by (simp add: stringOr_def DEFAULT_BASE_URL_def)
  show ?thesis
  proof (intro exI [of _ client] conjI)
    show "newMVSEPClient config = Inr client" by (rule c(1))
    show "cfg_maxRetries config = Some 0 \<longrightarrow>
          client_maxRetries client = 0
          \<and> (\<forall>h s. rs_calls (snd (request client h s)) = rs_calls s + 1)" by (rule m0)
    show "cfg_maxRetries config = None \<longrightarrow> client_maxRetries client = 3" by (rule m1)
    show "cfg_timeout config = Some 0 \<longrightarrow> client_timeout client = 30000" by (rule m2)
    show "cfg_retryDelay config = Some 0 \<longrightarrow> client_retryDelay client = 1000" by (rule m3)
    show "cfg_baseURL config = Some [] \<longrightarrow> baseURL client = ''https://mvsep.com''" by (rule m4)
    show "waitForSeparation env hash (options\<lparr> po_interval := Some 0 \<rparr>) p =
         waitLoop env hash (po_onProgress options) 5000
           (numberOr (po_maxDuration options) DEFAULT_POLL_MAX_DURATION) (ps_now p) p"
      by (rule waitForSeparation_interval_zero_loop)
    show "waitForSeparation env hash (options\<lparr> po_maxDuration := Some 0 \<rparr>) p =
         waitLoop env hash (po_onProgress options)
           (numberOr (po_interval options) DEFAULT_POLL_INTERVAL) 1800000 (ps_now p) p"
      by (rule waitForSeparation_maxDuration_zero_loop)
    show "waitForSeparation env hash (options\<lparr> po_interval := Some 0 \<rparr>) p =
         waitForSeparation env hash (options\<lparr> po_interval := Some 5000 \<rparr>) p"
      by (rule waitForSeparation_interval_zero)
    show "waitForSeparation env hash (options\<lparr> po_maxDuration := Some 0 \<rparr>) p =
         waitForSeparation env hash (options\<lparr> po_maxDuration := Some 1800000 \<rparr>) p"
      by (rule waitForSeparation_maxDuration_zero)
  qed
qed

theorem zero_configuration_values_witness:
  "cfg_apiToken zeroConfig \<noteq> []
   \<and> newMVSEPClient zeroConfig =
       Inr \<lparr> apiToken = ''test-token-123'', baseURL = ''https://mvsep.com'',
             client_timeout = 30000, client_maxRetries = 0, client_retryDelay = 1000,
             debug = False, customHeaders = [] \<rparr>
   \<and> rs_calls (snd (request
         \<lparr> apiToken = ''test-token-123'', baseURL = ''https://mvsep.com'',
           client_timeout = 30000, client_maxRetries = 0, client_retryDelay = 1000,
           debug = False, customHeaders = [] \<rparr> three503sThen200 retryStart)) = 1
   \<and> waitForSeparation waitingProcessingDone ''test-hash'' (pollingOptions 0 (Some 0) None)
         pollStart
       = (Inr doneJob,
          \<lparr> ps_now = 10006, ps_fetches = 3, ps_progress = [], ps_sleeps = [5000, 5000] \<rparr>)"
proof -
  let ?opts = "pollingOptions 0 (Some 0) None"
  have tok: "cfg_apiToken zeroConfig \<noteq> []" by (simp add: zeroConfig_def)
  have new: "newMVSEPClient zeroConfig =
       Inr \<lparr> apiToken = ''test-token-123'', baseURL = ''https://mvsep.com'',
             client_timeout = 30000, client_maxRetries = 0, client_retryDelay = 1000,
             debug = False, customHeaders = [] \<rparr>"
    by (simp add: newMVSEPClient_def zeroConfig_def stringOr_def numberOr_def nullishOr_def
          DEFAULT_BASE_URL_def DEFAULT_TIMEOUT_def DEFAULT_RETRY_DELAY_def)
  have mr: "cfg_maxRetries zeroConfig = Some 0" by (simp add: zeroConfig_def)
  have z: "rs_calls retryStart = 0" by (simp add: retryStart_def)
  note t = zero_configuration_values
         [OF tok, of waitingProcessingDone "''test-hash''" ?opts pollStart]
  from t new mr
  have one: "\<forall>h s. rs_calls (snd (request
         \<lparr> apiToken = ''test-token-123'', baseURL = ''https://mvsep.com'',
           client_timeout = 30000, client_maxRetries = 0, client_retryDelay = 1000,
           debug = False, customHeaders = [] \<rparr> h s)) = rs_calls s + 1"
    by auto
  have same: "?opts\<lparr> po_interval := Some 0 \<rparr> = ?opts" by (simp add: pollingOptions_def)
  have md: "numberOr (po_maxDuration ?opts) DEFAULT_POLL_MAX_DURATION = 1800000"
    by (simp add: pollingOptions_def numberOr_def DEFAULT_POLL_MAX_DURATION_def)
  have cb: "po_onProgress ?opts = None" by (simp add: pollingOptions_def)
  have t0: "ps_now pollStart = 0" by (simp add: pollStart_def)
  from t have "waitForSeparation waitingProcessingDone ''test-hash''
                 (?opts\<lparr> po_interval := Some 0 \<rparr>) pollStart =
      waitLoop waitingProcessingDone ''test-hash'' (po_onProgress ?opts) 5000
        (numberOr (po_maxDuration ?opts) DEFAULT_POLL_MAX_DURATION) (ps_now pollStart) pollStart"
    by blast
  then have pin: "waitForSeparation waitingProcessingDone ''test-hash'' ?opts pollStart =
      waitLoop waitingProcessingDone ''test-hash'' None 5000 1800000 0 pollStart"
    by (simp only: same md cb t0)
  have run: "waitLoop waitingProcessingDone ''test-hash'' None 5000 1800000 0 pollStart
       = (Inr doneJob,
          \<lparr> ps_now = 10006, ps_fetches = 3, ps_progress = [], ps_sleeps = [5000, 5000] \<rparr>)"
    by code_simp
  show ?thesis using tok new z one pin run by simp
qed

subsection \<open>Unfolding the polling loop\<close>

lemma timerDelay_positive: "0 < timerDelay ms"
  by (simp add: timerDelay_def)

lemma waitLoop_deadline:
  assumes "ps_now s - startTime > maxDuration"
  shows "waitLoop env hash onProgress interval maxDuration startTime s =
           (Inl (TimeoutError
                   (JStr (''Separation job timed out after '' @ showInt maxDuration @ ''ms''))), s)"
  using assms by (subst waitLoop.simps) simp

lemma waitLoop_fetch_rejects:
  assumes "\<not> ps_now s - startTime > maxDuration"
    and "getSeparation env (ps_fetches s) = Inl e"
  shows "waitLoop env hash onProgress interval maxDuration startTime s = (Inl e, afterFetch env s)"
  using assms by (subst waitLoop.simps) simp

lemma waitLoop_callback_throws:
  assumes "\<not> ps_now s - startTime > maxDuration"
    and "getSeparation env (ps_fetches s) = Inr status"
    and "callback (length (ps_progress s)) (progressSnapshot hash status) = Some e"
  shows "waitLoop env hash (Some callback) interval maxDuration startTime s =
           (Inl e, afterProgress (progressSnapshot hash status) (afterFetch env s))"
  using assms by (subst waitLoop.simps) (simp add: callOnProgress_def afterFetch_def)

lemma waitLoop_done:
  assumes "\<not> ps_now s - startTime > maxDuration"
    and "getSeparation env (ps_fetches s) = Inr status"
    and "callOnProgress onProgress hash status (afterFetch env s) = (None, s2)"
    and "sr_status status = Done"
  shows "waitLoop env hash onProgress interval maxDuration startTime s = (Inr status, s2)"
  using assms by (subst waitLoop.simps) simp

lemma waitLoop_job_error:
  assumes "\<not> ps_now s - startTime > maxDuration"
    and "getSeparation env (ps_fetches s) = Inr status"
    and "callOnProgress onProgress hash status (afterFetch env s) = (None, s2)"
    and "sr_status status = Error"
  shows "waitLoop env hash onProgress interval maxDuration startTime s =
           (Inl (SeparationError (JStr ''Separation job failed'') (Some hash)), s2)"
  using assms by (subst waitLoop.simps) simp

lemma waitLoop_pending:
  assumes "\<not> ps_now s - startTime > maxDuration"
    and "getSeparation env (ps_fetches s) = Inr status"
    and "callOnProgress onProgress hash status (afterFetch env s) = (None, s2)"
    and "sr_status status = Waiting \<or> sr_status status = Processing"
  shows "waitLoop env hash onProgress interval maxDuration startTime s =
           waitLoop env hash onProgress interval maxDuration startTime (pollSleep env interval s2)"
  using assms by (subst waitLoop.simps) auto

subsection \<open>Polling a job to completion\<close>

text \<open>
  C1 (as amended): in a session whose first three status fetches return \<open>waiting\<close>,
  \<open>processing\<close> and \<open>done\<close>, with none of the three deadline checks firing and a
  callback that returns normally, \<^verbatim>\<open>waitForSeparation\<close> issues exactly 3 status fetches
  and returns the \<open>done\<close> snapshot; the progress callback, when one is given, is invoked
  exactly three times, once after every fetch and so for the \<open>done\<close> snapshot too, in
  fetch order. Without a callback nothing is invoked.
\<close>

theorem waitForSeparation_waiting_processing_done:
  fixes env :: "'d poll_env"
  assumes "getSeparation env 0 = Inr r0" and "sr_status r0 = Waiting"
    and "getSeparation env 1 = Inr r1" and "sr_status r1 = Processing"
    and "getSeparation env 2 = Inr r2" and "sr_status r2 = Done"
    and "int (getSeparation_ms env 0) + int (getSeparation_ms env 1)
           + int (poll_timer_late env 0) + int (poll_timer_late env 1)
           + 2 * timerDelay (numberOr (po_interval options) DEFAULT_POLL_INTERVAL)
         \<le> numberOr (po_maxDuration options) DEFAULT_POLL_MAX_DURATION"
    and "\<forall>callback. po_onProgress options = Some callback \<longrightarrow>
           callback 0 (progressSnapshot hash r0) = None
         \<and> callback 1 (progressSnapshot hash r1) = None
         \<and> callback 2 (progressSnapshot hash r2) = None"
  shows "fst (waitForSeparation env hash options
                \<lparr> ps_now = t0, ps_fetches = 0, ps_progress = [], ps_sleeps = [] \<rparr>) = Inr r2
     \<and> ps_fetches (snd (waitForSeparation env hash options
                \<lparr> ps_now = t0, ps_fetches = 0, ps_progress = [], ps_sleeps = [] \<rparr>)) = 3
     \<and> ps_progress (snd (waitForSeparation env hash options
                \<lparr> ps_now = t0, ps_fetches = 0, ps_progress = [], ps_sleeps = [] \<rparr>))
         = (if po_onProgress options = None then []
            else [progressSnapshot hash r0, progressSnapshot hash r1, progressSnapshot hash r2])"
proof -
  define I where "I = numberOr (po_interval options) DEFAULT_POLL_INTERVAL"
  define D where "D = numberOr (po_maxDuration options) DEFAULT_POLL_MAX_DURATION"
  define cb where "cb = po_onProgress options"
  define log where
    "log = (\<lambda>rs :: 'd SeparationResponse list.
              if cb = None then [] else map (progressSnapshot hash) rs)"
  define m0 where "m0 = int (getSeparation_ms env 0)"
  define m1 where "m1 = int (getSeparation_ms env 1)"
  define l0 where "l0 = int (poll_timer_late env 0)"
  define l1 where "l1 = int (poll_timer_late env 1)"
  have pos: "0 < timerDelay I" by (rule timerDelay_positive)
  have nn: "0 \<le> m0" "0 \<le> m1" "0 \<le> l0" "0 \<le> l1" by (simp_all add: m0_def m1_def l0_def l1_def)
  have dl: "m0 + m1 + l0 + l1 + 2 * timerDelay I \<le> D"
    using assms(7) by (simp add: I_def D_def m0_def m1_def l0_def l1_def)
  define S0 :: "'d poll_state" where
    "S0 = \<lparr> ps_now = t0, ps_fetches = 0, ps_progress = [], ps_sleeps = [] \<rparr>"
  define S1 where "S1 = \<lparr> ps_now = t0 + m0 + timerDelay I + l0, ps_fetches = 1,
                          ps_progress = log [r0], ps_sleeps = [I] \<rparr>"
  define S2 where "S2 = \<lparr> ps_now = t0 + m0 + timerDelay I + l0 + m1 + timerDelay I + l1,
                          ps_fetches = 2, ps_progress = log [r0, r1], ps_sleeps = [I, I] \<rparr>"
  define S3 where "S3 = \<lparr> ps_now = t0 + m0 + timerDelay I + l0 + m1 + timerDelay I + l1
                                     + int (getSeparation_ms env 2),
                          ps_fetches = 3, ps_progress = log [r0, r1, r2], ps_sleeps = [I, I] \<rparr>"
  have quiet: "callback 0 (progressSnapshot hash r0) = None"
      "callback 1 (progressSnapshot hash r1) = None"
      "callback 2 (progressSnapshot hash r2) = None" if "cb = Some callback" for callback
    using assms(8) that by (simp_all add: cb_def)
  have c0: "callOnProgress cb hash r0 (afterFetch env S0)
              = (None, \<lparr> ps_now = t0 + m0, ps_fetches = 1, ps_progress = log [r0], ps_sleeps = [] \<rparr>)"
    using quiet(1)
    by (cases cb) (simp_all add: callOnProgress_def afterFetch_def afterProgress_def S0_def
                     log_def m0_def)
  have c1: "callOnProgress cb hash r1 (afterFetch env S1)
              = (None, \<lparr> ps_now = t0 + m0 + timerDelay I + l0 + m1, ps_fetches = 2,
                         ps_progress = log [r0, r1], ps_sleeps = [I] \<rparr>)"
    using quiet(2)
    by (cases cb) (simp_all add: callOnProgress_def afterFetch_def afterProgress_def S1_def
                     log_def m1_def)
  have c2: "callOnProgress cb hash r2 (afterFetch env S2) = (None, S3)"
    using quiet(3)
    by (cases cb) (simp_all add: callOnProgress_def afterFetch_def afterProgress_def S2_def
                     S3_def log_def numeral_2_eq_2)
  have d0: "\<not> ps_now S0 - t0 > D" using dl nn pos by (simp add: S0_def)
  have d1: "\<not> ps_now S1 - t0 > D" using dl nn pos by (simp add: S1_def)
  have d2: "\<not> ps_now S2 - t0 > D" using dl nn pos by (simp add: S2_def)
  have f0: "getSeparation env (ps_fetches S0) = Inr r0" using assms(1) by (simp add: S0_def)
  have f1: "getSeparation env (ps_fetches S1) = Inr r1" using assms(3) by (simp add: S1_def)
  have f2: "getSeparation env (ps_fetches S2) = Inr r2"
    using assms(5) by (simp add: S2_def numeral_2_eq_2)
  have "waitLoop env hash cb I D t0 S0 = waitLoop env hash cb I D t0 S1"
    using waitLoop_pending [OF d0 f0 c0, of I] assms(2)
    by (simp add: pollSleep_def S1_def l0_def)
  also have "\<dots> = waitLoop env hash cb I D t0 S2"
    using waitLoop_pending [OF d1 f1 c1, of I] assms(4)
    by (simp add: pollSleep_def S2_def l1_def)
  also have "\<dots> = (Inr r2, S3)"
    using waitLoop_done [OF d2 f2 c2 assms(6)] .
  finally have run: "waitLoop env hash cb I D t0 S0 = (Inr r2, S3)" .
  have "waitForSeparation env hash options
          \<lparr> ps_now = t0, ps_fetches = 0, ps_progress = [], ps_sleeps = [] \<rparr> = (Inr r2, S3)"
    using run by (simp add: waitForSeparation_def I_def D_def cb_def S0_def log_def)
  then show ?thesis by (simp add: S3_def log_def cb_def)
qed

theorem waitForSeparation_waiting_processing_done_witness:
  "fst (waitForSeparation waitingProcessingDone ''test-hash''
          (pollingOptions 10 None (Some quietCallback)) pollStart) = Inr doneJob
   \<and> ps_fetches (snd (waitForSeparation waitingProcessingDone ''test-hash''
          (pollingOptions 10 None (Some quietCallback)) pollStart)) = 3
   \<and> ps_progress (snd (waitForSeparation waitingProcessingDone ''test-hash''
          (pollingOptions 10 None (Some quietCallback)) pollStart))
       = [progressSnapshot ''test-hash'' waitingJob, progressSnapshot ''test-hash'' processingJob,
          progressSnapshot ''test-hash'' doneJob]"
proof -
  have f: "getSeparation waitingProcessingDone 0 = Inr waitingJob"
      "getSeparation waitingProcessingDone 1 = Inr processingJob"
      "getSeparation waitingProcessingDone 2 = Inr doneJob"
    by (simp_all add: waitingProcessingDone_def jobSequence_def)
  have st: "sr_status waitingJob = Waiting" "sr_status processingJob = Processing"
      "sr_status doneJob = Done"
    by (simp_all add: waitingJob_def processingJob_def doneJob_def statusResponse_def)
  have dl: "int (getSeparation_ms waitingProcessingDone 0)
           + int (getSeparation_ms waitingProcessingDone 1)
           + int (poll_timer_late waitingProcessingDone 0)
           + int (poll_timer_late waitingProcessingDone 1)
           + 2 * timerDelay (numberOr (po_interval (pollingOptions 10 None (Some quietCallback)))
                               DEFAULT_POLL_INTERVAL)
         \<le> numberOr (po_maxDuration (pollingOptions 10 None (Some quietCallback)))
               DEFAULT_POLL_MAX_DURATION"
    by (simp add: waitingProcessingDone_def jobSequence_def pollingOptions_def numberOr_def
          timerDelay_def DEFAULT_POLL_MAX_DURATION_def)
  have cb: "\<forall>callback. po_onProgress (pollingOptions 10 None (Some quietCallback)) = Some callback \<longrightarrow>
           callback 0 (progressSnapshot ''test-hash'' waitingJob) = None
         \<and> callback 1 (progressSnapshot ''test-hash'' processingJob) = None
         \<and> callback 2 (progressSnapshot ''test-hash'' doneJob) = None"
    by (simp add: pollingOptions_def quietCallback_def)
  have some: "po_onProgress (pollingOptions 10 None (Some quietCallback)) \<noteq> None"
    by (simp add: pollingOptions_def)
  show ?thesis
    using waitForSeparation_waiting_processing_done
            [OF f(1) st(1) f(2) st(2) f(3) st(3) dl cb, of 0] some
    by (simp add: pollStart_def)
qed

text \<open>
  C1 as stated fails: in the session \<open>waiting, processing, done\<close> of the repository's
  test, the callback is invoked three times, the third time with the \<open>done\<close> snapshot,
  and not twice.
\<close>

theorem waitForSeparation_progress_counterexample:
  "map ss_status (ps_progress (snd (waitForSeparation waitingProcessingDone ''test-hash''
       (pollingOptions 10 None (Some quietCallback)) pollStart))) = [Waiting, Processing, Done]
   \<and> length (ps_progress (snd (waitForSeparation waitingProcessingDone ''test-hash''
       (pollingOptions 10 None (Some quietCallback)) pollStart))) \<noteq> 2"
proof -
  have run: "map ss_status (ps_progress (snd (waitForSeparation waitingProcessingDone ''test-hash''
       (pollingOptions 10 None (Some quietCallback)) pollStart))) = [Waiting, Processing, Done]"
    by code_simp
  have "length (ps_progress (snd (waitForSeparation waitingProcessingDone
       ''test-hash'' (pollingOptions 10 None (Some quietCallback)) pollStart)))
        = length [Waiting, Processing, Done]"
    using arg_cong [OF run, of length] by (simp only: length_map)
  then have "length (ps_progress (snd (waitForSeparation waitingProcessingDone
       ''test-hash'' (pollingOptions 10 None (Some quietCallback)) pollStart))) \<noteq> 2"
    by simp
  then show ?thesis using run by blast
qed

subsection \<open>Invariants of the polling loop\<close>

lemma waitLoop_unfold_fetched:
  assumes "\<not> ps_now s - startTime > maxDuration"
    and "getSeparation env (ps_fetches s) = Inr r"
    and "callOnProgress onProgress hash r (afterFetch env s) = (x, s2)"
  shows "waitLoop env hash onProgress interval maxDuration startTime s =
         (case x of Some e \<Rightarrow> (Inl e, s2)
          | None \<Rightarrow> if sr_status r = Done then (Inr r, s2)
                    else if sr_status r = Error then
                      (Inl (SeparationError (JStr ''Separation job failed'') (Some hash)), s2)
                    else waitLoop env hash onProgress interval maxDuration startTime
                           (pollSleep env interval s2))"
  using assms by (subst waitLoop.simps) simp

lemma waitLoop_progress_extends:
  "\<exists>ys. ps_progress (snd (waitLoop env hash onProgress interval maxDuration startTime s))
          = ps_progress s @ ys"
proof (induction env hash onProgress interval maxDuration startTime s rule: waitLoop.induct)
  case (1 env hash onProgress interval maxDuration startTime s)
  show ?case
  proof (cases "ps_now s - startTime > maxDuration")
    case True
    then show ?thesis by (simp add: waitLoop_deadline)
  next
    case False
    then have le: "\<not> maxDuration < ps_now s - startTime" by simp
    show ?thesis
    proof (cases "getSeparation env (ps_fetches s)")
      case (Inl e)
      then show ?thesis using waitLoop_fetch_rejects [OF False Inl] by (simp add: afterFetch_def)
    next
      case (Inr r)
      obtain x s2 where c: "callOnProgress onProgress hash r (afterFetch env s) = (x, s2)"
        by (cases "callOnProgress onProgress hash r (afterFetch env s)")
      have p2: "\<exists>zs. ps_progress s2 = ps_progress s @ zs"
        using c by (cases onProgress) (auto simp: callOnProgress_def afterFetch_def afterProgress_def)
      note unf = waitLoop_unfold_fetched [OF False Inr c, of interval]
      show ?thesis
      proof (cases "x = None \<and> sr_status r \<noteq> Done \<and> sr_status r \<noteq> Error")
        case True
        then obtain ys where "ps_progress (snd (waitLoop env hash onProgress interval maxDuration
            startTime (pollSleep env interval s2))) = ps_progress (pollSleep env interval s2) @ ys"
          using "1.IH" [OF le Inr c [symmetric]] by blast
        then show ?thesis using unf True p2 by (auto simp add: pollSleep_def)
      next
        case False
        then show ?thesis using unf p2 by (auto split: option.splits)
      qed
    qed
  qed
qed

lemma waitLoop_callback_error_surfaces:
  assumes "length (ps_progress s) \<le> i"
    and "i < length (ps_progress (snd (waitLoop env hash (Some callback) interval maxDuration
                                         startTime s)))"
    and "callback i (ps_progress (snd (waitLoop env hash (Some callback) interval maxDuration
                                         startTime s)) ! i) = Some e"
  shows "fst (waitLoop env hash (Some callback) interval maxDuration startTime s) = Inl e"
  using assms
proof (induction env hash "Some callback" interval maxDuration startTime s rule: waitLoop.induct)
  case (1 env hash interval maxDuration startTime s)
  let ?run = "waitLoop env hash (Some callback) interval maxDuration startTime s"
  show ?case
  proof (cases "ps_now s - startTime > maxDuration")
    case True
    then show ?thesis using "1.prems" by (simp add: waitLoop_deadline)
  next
    case False
    then have le: "\<not> maxDuration < ps_now s - startTime" by simp
    show ?thesis
    proof (cases "getSeparation env (ps_fetches s)")
      case (Inl e')
      then show ?thesis
        using waitLoop_fetch_rejects [OF False Inl] "1.prems" by (simp add: afterFetch_def)
    next
      case (Inr r)
      let ?n = "length (ps_progress s)"
      let ?snap = "progressSnapshot hash r"
      let ?s2 = "afterProgress ?snap (afterFetch env s)"
      have c: "callOnProgress (Some callback) hash r (afterFetch env s) = (callback ?n ?snap, ?s2)"
        by (simp add: callOnProgress_def afterFetch_def)
      have p2: "ps_progress ?s2 = ps_progress s @ [?snap]"
        by (simp add: afterProgress_def afterFetch_def)
      note unf = waitLoop_unfold_fetched [OF False Inr c, of interval]
      show ?thesis
      proof (cases "callback ?n ?snap = None \<and> sr_status r \<noteq> Done \<and> sr_status r \<noteq> Error")
        case True
        let ?next = "waitLoop env hash (Some callback) interval maxDuration startTime
                       (pollSleep env interval ?s2)"
        have run: "?run = ?next" using unf True by simp
        obtain ys where ys: "ps_progress (snd ?next) = (ps_progress s @ [?snap]) @ ys"
          using waitLoop_progress_extends
                  [of env hash "Some callback" interval maxDuration startTime
                      "pollSleep env interval ?s2"] p2
          by (auto simp add: pollSleep_def)
        show ?thesis
        proof (cases "i = ?n")
          case True
          have "ps_progress (snd ?run) ! i = ?snap" using run ys True by (simp add: nth_append)
          then show ?thesis using "1.prems"(3) \<open>callback ?n ?snap = None \<and> _\<close> True by simp
        next
          case False
          then have lo: "length (ps_progress (pollSleep env interval ?s2)) \<le> i"
            using "1.prems"(1) p2 by (simp add: pollSleep_def)
          have "fst ?next = Inl e"
            using "1.hyps" [OF le Inr c [symmetric] _ _ _ lo] True "1.prems"(2,3) run by simp
          then show ?thesis using run by simp
        qed
      next
        case False
        have fin: "ps_progress (snd ?run) = ps_progress s @ [?snap]"
          using unf False p2 by (auto split: option.splits)
        then have "i = ?n" using "1.prems"(1,2) by simp
        then have "callback ?n ?snap = Some e" using "1.prems"(3) fin by simp
        then show ?thesis using unf by simp
      qed
    qed
  qed
qed




subsection \<open>The polling deadline\<close>




subsection \<open>A callback that throws\<close>

text \<open>
  C9: the progress callback is called synchronously and nothing catches what it throws.
  In any iteration, when the callback throws \<open>e\<close> on the snapshot just fetched, the loop
  ends there and \<^verbatim>\<open>waitForSeparation\<close> rejects with \<open>e\<close>: the state is the one after that
  fetch and that call, with no sleep and no further fetch. Over a whole session, if any
  invocation of the callback made during the session threw \<open>e'\<close>, then the session's
  result is the rejection \<open>e'\<close>; no callback error is swallowed.
\<close>

theorem onProgress_error_propagates:
  "(\<not> ps_now s - startTime > maxDuration \<longrightarrow>
    getSeparation env (ps_fetches s) = Inr status \<longrightarrow>
    callback (length (ps_progress s)) (progressSnapshot hash status) = Some e \<longrightarrow>
      waitLoop env hash (Some callback) interval maxDuration startTime s =
        (Inl e, afterProgress (progressSnapshot hash status) (afterFetch env s)))
   \<and> (po_onProgress options = Some callback \<longrightarrow>
      length (ps_progress p) \<le> i \<longrightarrow>
      i < length (ps_progress (snd (waitForSeparation env hash options p))) \<longrightarrow>
      callback i (ps_progress (snd (waitForSeparation env hash options p)) ! i) = Some e' \<longrightarrow>
        fst (waitForSeparation env hash options p) = Inl e')"
proof (intro conjI impI)
  assume "\<not> ps_now s - startTime > maxDuration"
    and "getSeparation env (ps_fetches s) = Inr status"
    and "callback (length (ps_progress s)) (progressSnapshot hash status) = Some e"
  then show "waitLoop env hash (Some callback) interval maxDuration startTime s =
        (Inl e, afterProgress (progressSnapshot hash status) (afterFetch env s))"
    by (rule waitLoop_callback_throws)
next
  assume cb: "po_onProgress options = Some callback"
    and lo: "length (ps_progress p) \<le> i"
    and hi: "i < length (ps_progress (snd (waitForSeparation env hash options p)))"
    and thr: "callback i (ps_progress (snd (waitForSeparation env hash options p)) ! i) = Some e'"
  have unf: "waitForSeparation env hash options p =
      waitLoop env hash (Some callback)
        (numberOr (po_interval options) DEFAULT_POLL_INTERVAL)
        (numberOr (po_maxDuration options) DEFAULT_POLL_MAX_DURATION) (ps_now p) p"
    using cb by (simp add: waitForSeparation_def)
  show "fst (waitForSeparation env hash options p) = Inl e'"
    using waitLoop_callback_error_surfaces [OF lo] hi thr unfolding unf by blast
qed

theorem onProgress_error_propagates_witness:
  "waitForSeparation waitingProcessingDone ''test-hash''
       (pollingOptions 10 None (Some throwingCallback)) pollStart
     = (Inl (JSError ''Error'' ''callback failed'' None None None),
        \<lparr> ps_now = 2, ps_fetches = 1,
          ps_progress = [progressSnapshot ''test-hash'' waitingJob], ps_sleeps = [] \<rparr>)"
proof -
  let ?opts = "pollingOptions 10 None (Some throwingCallback)"
  let ?e = "JSError ''Error'' ''callback failed'' None None None"
  have unf: "waitForSeparation waitingProcessingDone ''test-hash'' ?opts pollStart =
      waitLoop waitingProcessingDone ''test-hash'' (Some throwingCallback) 10 1800000 0 pollStart"
    by (simp add: waitForSeparation_def pollingOptions_def numberOr_def pollStart_def
          DEFAULT_POLL_MAX_DURATION_def)
  have early: "\<not> ps_now pollStart - 0 > 1800000" by (simp add: pollStart_def)
  have f: "getSeparation waitingProcessingDone (ps_fetches pollStart) = Inr waitingJob"
    by (simp add: waitingProcessingDone_def jobSequence_def pollStart_def)
  have thr: "throwingCallback (length (ps_progress pollStart))
               (progressSnapshot ''test-hash'' waitingJob) = Some ?e"
    by (simp add: throwingCallback_def)
  have st: "afterProgress (progressSnapshot ''test-hash'' waitingJob)
              (afterFetch waitingProcessingDone pollStart)
        = \<lparr> ps_now = 2, ps_fetches = 1,
            ps_progress = [progressSnapshot ''test-hash'' waitingJob], ps_sleeps = [] \<rparr>"
    by (simp add: afterProgress_def afterFetch_def pollStart_def waitingProcessingDone_def
          jobSequence_def)
  note a = onProgress_error_propagates
    [where s = pollStart and startTime = 0 and maxDuration = 1800000
       and env = waitingProcessingDone and status = waitingJob
       and callback = throwingCallback and hash = "''test-hash''" and e = ?e
       and interval = 10 and options = ?opts and p = pollStart and i = 0 and e' = ?e]
  have run: "waitForSeparation waitingProcessingDone ''test-hash'' ?opts pollStart
      = (Inl ?e, \<lparr> ps_now = 2, ps_fetches = 1,
            ps_progress = [progressSnapshot ''test-hash'' waitingJob], ps_sleeps = [] \<rparr>)"
    using a early f thr st unf by simp
  have "po_onProgress ?opts = Some throwingCallback" by (simp add: pollingOptions_def)
  moreover have "length (ps_progress pollStart) \<le> 0" by (simp add: pollStart_def)
  moreover have "0 < length (ps_progress (snd (waitForSeparation waitingProcessingDone
      ''test-hash'' ?opts pollStart)))"
    unfolding run by simp
  moreover have "throwingCallback 0 (ps_progress (snd (waitForSeparation waitingProcessingDone
      ''test-hash'' ?opts pollStart)) ! 0) = Some ?e"
    by (simp add: throwingCallback_def)
  ultimately have "fst (waitForSeparation waitingProcessingDone ''test-hash'' ?opts pollStart)
      = Inl ?e"
    using a by blast
  then show ?thesis using run by simp
qed

end
